theory Spec2Isabelle
  imports Complex_Main "HOL-Library.Log_Nat" "HOL-Library.Multiset"
begin

section \<open>JavaScript numbers\<close>

text \<open>
  A JavaScript \<^verbatim>\<open>number\<close> is an IEEE-754 binary64 value. A finite one is a rational, and
  every arithmetic operator returns the exact result rounded to the nearest value with a
  53-bit significand, ties to even. The model keeps the 53 bits and the rounding; it has no
  exponent limits (no overflow to Infinity, no subnormals) and no NaN, which the scores,
  ranges and delays of this program never come near.
\<close>

definition rne :: "rat \<Rightarrow> int" where
  \<comment> \<open>round to the nearest integer, a tie to the even neighbour\<close>
  "rne y = (let f = \<lfloor>y\<rfloor>; d = y - of_int f
            in if d < 1/2 then f else if 1/2 < d then f + 1
               else if even f then f else f + 1)"

definition expo :: "rat \<Rightarrow> int" where
  \<comment> \<open>for \<open>0 < a\<close>: the binary exponent \<open>e\<close> with \<open>2 powi e \<le> a < 2 powi (e + 1)\<close>\<close>
  "expo a = (let (p, q) = quotient_of a; d = bitlen p - bitlen q
             in if 2 powi d \<le> a then d else d - 1)"

definition fl :: "rat \<Rightarrow> rat" where
  \<comment> \<open>the binary64 value nearest to \<open>x\<close>\<close>
  "fl x = (if x = 0 then 0
           else let a = \<bar>x\<bar>; u = 2 powi (expo a - 52)
                in sgn x * (of_int (rne (a / u)) * u))"

definition js_add :: "rat \<Rightarrow> rat \<Rightarrow> rat" where
  "js_add x y = fl (x + y)"

definition js_sub :: "rat \<Rightarrow> rat \<Rightarrow> rat" where
  "js_sub x y = fl (x - y)"

definition js_mul :: "rat \<Rightarrow> rat \<Rightarrow> rat" where
  "js_mul x y = fl (x * y)"

definition js_div :: "rat \<Rightarrow> rat \<Rightarrow> rat" where
  \<comment> \<open>the divisor is never zero where the program divides: every score range has \<open>min < max\<close>\<close>
  "js_div x y = fl (x / y)"

definition Math_round :: "rat \<Rightarrow> rat" where
  \<comment> \<open>\<^verbatim>\<open>Math.round\<close>: the nearest integer, a tie going up; exact, not rounded again\<close>
  "Math_round x = of_int \<lfloor>x + 1/2\<rfloor>"

definition Math_min :: "rat \<Rightarrow> rat \<Rightarrow> rat" where
  "Math_min x y = min x y"

definition Math_max :: "rat \<Rightarrow> rat \<Rightarrow> rat" where
  "Math_max x y = max x y"

section \<open>Articles (src/types/article.ts)\<close>

datatype ArticleSource =
  Hackernews | Github | Github_prs | Reddit | Producthunt
  | Tech_rss | Hatena | Bluesky | Youtube | World_news

text \<open>The open \<^verbatim>\<open>metadata\<close> bag holds JSON values.\<close>

datatype jvalue =
  JNull | JBool bool | JNum rat | JStr string
  | JArr "jvalue list" | JObj "(string \<times> jvalue) list"

record article =
  source :: ArticleSource
  title :: string
  url :: string
  thumbnailUrl :: "string option"
  excerpt :: "string option"
  score :: rat
  externalId :: string
  metadata :: "(string \<times> jvalue) list"

section \<open>Constants of the collection route (src/app/api/cron/collect/route.ts)\<close>

fun TOP_N_PER_SOURCE :: "ArticleSource \<Rightarrow> nat" where
  "TOP_N_PER_SOURCE Hackernews = 5"
| "TOP_N_PER_SOURCE Github = 5"
| "TOP_N_PER_SOURCE Github_prs = 10"
| "TOP_N_PER_SOURCE Reddit = 5"
| "TOP_N_PER_SOURCE Tech_rss = 5"
| "TOP_N_PER_SOURCE Hatena = 5"
| "TOP_N_PER_SOURCE Producthunt = 5"
| "TOP_N_PER_SOURCE Bluesky = 3"
| "TOP_N_PER_SOURCE Youtube = 3"
| "TOP_N_PER_SOURCE World_news = 5"

record score_range =
  range_min :: rat
  range_max :: rat

fun SCORE_RANGES :: "ArticleSource \<Rightarrow> score_range" where
  "SCORE_RANGES Hackernews = \<lparr>range_min = 0, range_max = 500\<rparr>"
| "SCORE_RANGES Github = \<lparr>range_min = 0, range_max = 5000\<rparr>"
| "SCORE_RANGES Github_prs = \<lparr>range_min = 0, range_max = 100\<rparr>"
| "SCORE_RANGES Reddit = \<lparr>range_min = 0, range_max = 5000\<rparr>"
| "SCORE_RANGES Tech_rss = \<lparr>range_min = 0, range_max = 100\<rparr>"
| "SCORE_RANGES Hatena = \<lparr>range_min = 0, range_max = 500\<rparr>"
| "SCORE_RANGES Producthunt = \<lparr>range_min = 0, range_max = 500\<rparr>"
| "SCORE_RANGES Bluesky = \<lparr>range_min = 0, range_max = 200\<rparr>"
| "SCORE_RANGES Youtube = \<lparr>range_min = 0, range_max = 1000000\<rparr>"
| "SCORE_RANGES World_news = \<lparr>range_min = 0, range_max = 100\<rparr>"

section \<open>Score normalisation\<close>

definition normalized_score :: "score_range \<Rightarrow> rat \<Rightarrow> rat" where
  \<comment> \<open>the expression that \<^verbatim>\<open>normalizeScores\<close> assigns to \<^verbatim>\<open>score\<close>, operator by operator\<close>
  "normalized_score rng s =
     Math_round
       (Math_min 100
          (Math_max 0
             (js_mul (js_div (js_sub s (range_min rng))
                             (js_sub (range_max rng) (range_min rng)))
                     100)))"

definition normalizeScores :: "article list \<Rightarrow> ArticleSource \<Rightarrow> article list" where
  "normalizeScores fetchedArticles src =
     (let rng = SCORE_RANGES src
      in map (\<lambda>a. a\<lparr>score := normalized_score rng (score a)\<rparr>) fetchedArticles)"

text \<open>
  The formula of the specification, in exact arithmetic:
  \<open>clamp(0, 100, round(100 * (rawScore - rangeMin) / (rangeMax - rangeMin)))\<close>.
\<close>

definition clamp :: "rat \<Rightarrow> rat \<Rightarrow> rat \<Rightarrow> rat" where
  "clamp lo hi x = max lo (min hi x)"

definition spec_normalized_score :: "score_range \<Rightarrow> rat \<Rightarrow> rat" where
  "spec_normalized_score rng s =
     clamp 0 100
       (Math_round (100 * (s - range_min rng) / (range_max rng - range_min rng)))"

definition spec_normalizeScores :: "article list \<Rightarrow> ArticleSource \<Rightarrow> article list" where
  "spec_normalizeScores fetchedArticles src =
     map (\<lambda>a. a\<lparr>score := spec_normalized_score (SCORE_RANGES src) (score a)\<rparr>) fetchedArticles"

section \<open>Top-N selection\<close>

text \<open>
  \<^verbatim>\<open>Array.prototype.sort\<close> is stable, and its comparator decides by the sign of the number
  it returns. For a comparator that is a consistent order, as \<^verbatim>\<open>b.score - a.score\<close> is on
  finite scores, a stable sort has one possible result; insertion from the right computes it.
\<close>

fun insert_by :: "('a \<Rightarrow> 'a \<Rightarrow> rat) \<Rightarrow> 'a \<Rightarrow> 'a list \<Rightarrow> 'a list" where
  "insert_by cmp x [] = [x]"
| "insert_by cmp x (y # ys) =
     (if cmp x y \<le> 0 then x # y # ys else y # insert_by cmp x ys)"

definition Array_sort :: "('a \<Rightarrow> 'a \<Rightarrow> rat) \<Rightarrow> 'a list \<Rightarrow> 'a list" where
  "Array_sort cmp xs = foldr (insert_by cmp) xs []"

definition by_score_desc :: "article \<Rightarrow> article \<Rightarrow> rat" where
  \<comment> \<open>\<^verbatim>\<open>(a, b) => b.score - a.score\<close>\<close>
  "by_score_desc a b = js_sub (score b) (score a)"

definition selectTopN :: "article list \<Rightarrow> nat \<Rightarrow> article list" where
  \<comment> \<open>\<^verbatim>\<open>[...normalizedArticles].sort((a, b) => b.score - a.score).slice(0, n)\<close>, as a value\<close>
  "selectTopN normalizedArticles n = take n (Array_sort by_score_desc normalizedArticles)"

text \<open>
  The same function on a store of arrays, where \<^verbatim>\<open>sort\<close> works in place: the spread
  allocates a copy, \<^verbatim>\<open>sort\<close> overwrites that copy and returns it, \<^verbatim>\<open>slice\<close> allocates
  the result.
\<close>

record heap =
  arrays :: "nat \<Rightarrow> article list"
  next_ref :: nat

definition alloc :: "heap \<Rightarrow> article list \<Rightarrow> heap \<times> nat" where
  "alloc h xs = (h\<lparr>arrays := (arrays h)(next_ref h := xs), next_ref := Suc (next_ref h)\<rparr>,
                 next_ref h)"

definition sort_in_place :: "heap \<Rightarrow> nat \<Rightarrow> heap \<times> nat" where
  "sort_in_place h r = (h\<lparr>arrays := (arrays h)(r := Array_sort by_score_desc (arrays h r))\<rparr>, r)"

definition selectTopN_heap :: "heap \<Rightarrow> nat \<Rightarrow> nat \<Rightarrow> heap \<times> nat" where
  "selectTopN_heap h normalizedArticles n =
     (let (h1, copy) = alloc h (arrays h normalizedArticles);
          (h2, sorted) = sort_in_place h1 copy
      in alloc h2 (take n (arrays h2 sorted)))"

text \<open>The specification's words: sort descending by score, stable, and truncate to K.\<close>

definition spec_topK :: "article list \<Rightarrow> nat \<Rightarrow> article list" where
  "spec_topK xs k = take k (sort_key (\<lambda>a. - score a) xs)"

section \<open>The cache client (src/lib/cache.ts)\<close>

text \<open>
  \<^verbatim>\<open>redis\<close> is \<^verbatim>\<open>null\<close> when the Upstash variables are not set. Otherwise every
  \<^verbatim>\<open>redis.get\<close> is a request to the store, which answers with a value, with \<^verbatim>\<open>null\<close>, or fails;
  \<^verbatim>\<open>cacheGet\<close> returns that promise as it is, so a failed request rejects \<^verbatim>\<open>cacheGet\<close>.
  The fetchers read and write lists of articles.
\<close>

datatype error =
    CacheError string
  | NetworkFailure string
  | HttpStatus nat
  | Http403 string
  | BodyError
  | RetriesExhausted

datatype 'a outcome = Returned 'a | Threw error

datatype 'a cache_reply = Hit 'a | Miss | Fails string

datatype event =
    RedisGet string
  | RedisSet string "article list" nat
  | HttpFetch string "string option"
  | Sleep "rat option"

record cache_env =
  redis :: bool
  first_read :: "article list cache_reply"
  second_read :: "article list cache_reply"

definition cacheGet :: "bool \<Rightarrow> string \<Rightarrow> 'a cache_reply \<Rightarrow> 'a option outcome \<times> event list" where
  "cacheGet rds key reply =
     (if \<not> rds then (Returned None, [])
      else (case reply of
              Hit v \<Rightarrow> (Returned (Some v), [RedisGet key])
            | Miss \<Rightarrow> (Returned None, [RedisGet key])
            | Fails e \<Rightarrow> (Threw (CacheError e), [RedisGet key])))"

definition cacheSet :: "bool \<Rightarrow> string \<Rightarrow> article list \<Rightarrow> nat \<Rightarrow> event list" where
  \<comment> \<open>always called as \<^verbatim>\<open>void cacheSet(...)\<close>: nobody waits for it or sees it fail\<close>
  "cacheSet rds key v ttl = (if rds then [RedisSet key v ttl] else [])"

fun truthy :: "string option \<Rightarrow> bool" where
  \<comment> \<open>a \<^verbatim>\<open>string | null | undefined\<close> used as a condition\<close>
  "truthy None = False"
| "truthy (Some s) = (s \<noteq> [])"

definition stale_or_empty :: "cache_env \<Rightarrow> string \<Rightarrow> article list outcome \<times> event list" where
  \<comment> \<open>the \<^verbatim>\<open>catch\<close> block every fetcher has: re-read the cache, else the empty list\<close>
  "stale_or_empty c key =
     (case cacheGet (redis c) key (second_read c) of
        (Threw e, tr) \<Rightarrow> (Threw e, tr)
      | (Returned (Some stale), tr) \<Rightarrow> (Returned stale, tr)
      | (Returned None, tr) \<Rightarrow> (Returned [], tr))"

definition try_catch ::
  "article list outcome \<times> event list \<Rightarrow> article list outcome \<times> event list
   \<Rightarrow> article list outcome \<times> event list" where
  "try_catch body handler =
     (case body of
        (Returned v, tr) \<Rightarrow> (Returned v, tr)
      | (Threw e, tr) \<Rightarrow> (fst handler, tr @ snd handler))"

section \<open>Upstream responses and retry (src/lib/sources/github.ts, github-prs.ts)\<close>

text \<open>
  A call of \<^verbatim>\<open>fetch\<close> rejects or resolves to a response: its status, its
  \<^verbatim>\<open>Retry-After\<close> header, its text, and what \<^verbatim>\<open>res.json()\<close> gives (\<open>None\<close> when it
  rejects). \<^verbatim>\<open>res.ok\<close> is a status from 200 to 299. \<^verbatim>\<open>Number\<close> on a header string is a
  parameter \<open>Number\<close> of the model; \<open>None\<close> is NaN.
\<close>

datatype 'p response =
    NetworkError string
  | Response nat "string option" string "'p option"

definition res_ok :: "nat \<Rightarrow> bool" where
  "res_ok st = (200 \<le> st \<and> st \<le> 299)"

definition MAX_RETRIES :: nat where
  "MAX_RETRIES = 3"

definition BASE_DELAY_MS :: rat where
  "BASE_DELAY_MS = 1000"

definition retry_delay :: "(string \<Rightarrow> rat option) \<Rightarrow> string option \<Rightarrow> nat \<Rightarrow> rat option" where
  \<comment> \<open>\<^verbatim>\<open>retryAfter ? Number(retryAfter) * 1000 : BASE_DELAY_MS * 2 ** attempt\<close>\<close>
  "retry_delay Number retryAfter attempt =
     (if truthy retryAfter
      then (case retryAfter of
              Some s \<Rightarrow> map_option (\<lambda>v. js_mul v 1000) (Number s)
            | None \<Rightarrow> None)
      else Some (js_mul BASE_DELAY_MS (fl (2 ^ attempt))))"

function fetchWithRetry_from ::
  "(string \<Rightarrow> rat option) \<Rightarrow> string \<Rightarrow> string option \<Rightarrow> (nat \<Rightarrow> 'p response) \<Rightarrow> nat
   \<Rightarrow> 'p outcome \<times> event list" where
  "fetchWithRetry_from Number u auth responses attempt =
     (if attempt \<le> MAX_RETRIES then
        (case responses attempt of
           NetworkError e \<Rightarrow> (Threw (NetworkFailure e), [HttpFetch u auth])
         | Response st retryAfter body js \<Rightarrow>
             if res_ok st then
               (case js of
                  Some d \<Rightarrow> (Returned d, [HttpFetch u auth])
                | None \<Rightarrow> (Threw BodyError, [HttpFetch u auth]))
             else if (st = 403 \<or> st = 429) \<and> attempt < MAX_RETRIES then
               (case fetchWithRetry_from Number u auth responses (attempt + 1) of
                  (r, tr) \<Rightarrow>
                    (r, HttpFetch u auth # Sleep (retry_delay Number retryAfter attempt) # tr))
             else (Threw (HttpStatus st), [HttpFetch u auth]))
      else (Threw RetriesExhausted, []))"
  by pat_completeness auto
termination
  by (relation "measure (\<lambda>(Number, u, auth, responses, attempt). Suc MAX_RETRIES - attempt)") auto

definition fetchWithRetry ::
  "(string \<Rightarrow> rat option) \<Rightarrow> string \<Rightarrow> string option \<Rightarrow> (nat \<Rightarrow> 'p response)
   \<Rightarrow> 'p outcome \<times> event list" where
  \<comment> \<open>the loop starts at \<^verbatim>\<open>attempt = 0\<close>; \<open>responses i\<close> answers the call of attempt \<open>i\<close>\<close>
  "fetchWithRetry Number u auth responses = fetchWithRetry_from Number u auth responses 0"

definition fetches :: "event list \<Rightarrow> nat" where
  "fetches tr = length (filter (\<lambda>e. case e of HttpFetch u a \<Rightarrow> True | _ \<Rightarrow> False) tr)"

fun string_of_nat :: "nat \<Rightarrow> string" where
  "string_of_nat n =
     (if n < 10 then [char_of (48 + n)]
      else string_of_nat (n div 10) @ [char_of (48 + n mod 10)])"

section \<open>GitHub trending repositories (src/lib/sources/github.ts)\<close>

record GitHubRepo =
  repo_id :: nat
  repo_name :: string
  full_name :: string
  html_url :: string
  description :: "string option"
  stargazers_count :: nat
  language :: "string option"
  owner_avatar_url :: string

record GitHubSearchResponse =
  total_count :: nat
  items :: "GitHubRepo list"

definition jstr_or_null :: "string option \<Rightarrow> jvalue" where
  "jstr_or_null v = (case v of None \<Rightarrow> JNull | Some s \<Rightarrow> JStr s)"

definition mapReposToArticles :: "GitHubRepo list \<Rightarrow> article list" where
  "mapReposToArticles repos =
     map (\<lambda>repo.
        \<lparr>source = Github,
         title = full_name repo,
         url = html_url repo,
         thumbnailUrl = Some (owner_avatar_url repo),
         excerpt = description repo,
         score = of_nat (stargazers_count repo),
         externalId = string_of_nat (repo_id repo),
         metadata =
           [(''name'', JStr (repo_name repo)),
            (''stars'', JNum (of_nat (stargazers_count repo))),
            (''language'', jstr_or_null (language repo)),
            (''description'', jstr_or_null (description repo))]\<rparr>) repos"

definition buildSearchUrl :: "string \<Rightarrow> string" where
  \<comment> \<open>\<open>dateStr\<close> is the day one week before the call, which the clock decides\<close>
  "buildSearchUrl dateStr =
     ''https://api.github.com/search/repositories'' @ ''?q=created:>'' @ dateStr
     @ ''&sort=stars&order=desc&per_page=5''"

definition fetchGitHubArticles ::
  "(string \<Rightarrow> rat option) \<Rightarrow> cache_env \<Rightarrow> string \<Rightarrow> (nat \<Rightarrow> GitHubSearchResponse response)
   \<Rightarrow> article list outcome \<times> event list" where
  "fetchGitHubArticles Number c dateStr responses =
     (case cacheGet (redis c) ''source:github'' (first_read c) of
        (Threw e, tr) \<Rightarrow> (Threw e, tr)
      | (Returned (Some cached), tr) \<Rightarrow> (Returned cached, tr)
      | (Returned None, tr) \<Rightarrow>
          (case try_catch
                  (case fetchWithRetry Number (buildSearchUrl dateStr) None responses of
                     (Threw e, tr2) \<Rightarrow> (Threw e, tr2)
                   | (Returned data, tr2) \<Rightarrow>
                       (let arts = mapReposToArticles (take 5 (items data))
                        in (Returned arts, tr2 @ cacheSet (redis c) ''source:github'' arts (60 * 60))))
                  (stale_or_empty c ''source:github'') of
             (r, tr2) \<Rightarrow> (r, tr @ tr2)))"

section \<open>GitHub pull requests (src/lib/sources/github-prs.ts)\<close>

datatype pr_state = Open | Closed

record GitHubPR =
  pr_number :: nat
  pr_title :: string
  pr_html_url :: string
  pr_state :: pr_state
  pr_body :: "string option"
  pr_comments :: "nat option"
  review_comments :: "nat option"
  additions :: "nat option"
  deletions :: "nat option"
  draft :: bool
  merged_at :: "string option"
  updated_at :: string
  labels :: "(string \<times> string) list"
  user_login :: string
  user_avatar_url :: string

definition REPOS :: "string list" where
  "REPOS = [''facebook/react'', ''vercel/next.js'']"

fun split_on :: "char \<Rightarrow> string \<Rightarrow> string list" where
  "split_on c [] = [[]]"
| "split_on c (x # xs) =
     (if x = c then [] # split_on c xs
      else (case split_on c xs of
              w # ws \<Rightarrow> (x # w) # ws
            | [] \<Rightarrow> [[x]]))"

definition repoShort :: "string \<Rightarrow> string" where
  \<comment> \<open>\<^verbatim>\<open>repo.split("/")[1] ?? repo\<close>\<close>
  "repoShort repo = (case split_on (CHR ''/'') repo of a # b # rest \<Rightarrow> b | _ \<Rightarrow> repo)"

definition nat_or_zero :: "nat option \<Rightarrow> rat" where
  "nat_or_zero v = (case v of None \<Rightarrow> 0 | Some n \<Rightarrow> of_nat n)"

definition prToArticle :: "string \<Rightarrow> GitHubPR \<Rightarrow> article" where
  "prToArticle short pr =
     \<lparr>source = Github_prs,
      title = pr_title pr,
      url = pr_html_url pr,
      thumbnailUrl = Some (user_avatar_url pr),
      excerpt = (if truthy (pr_body pr) then map_option (take 200) (pr_body pr) else None),
      score = js_add (nat_or_zero (pr_comments pr)) (nat_or_zero (review_comments pr)),
      externalId = ''pr-'' @ short @ ''-'' @ string_of_nat (pr_number pr),
      metadata =
        [(''repo'', JStr short),
         (''number'', JNum (of_nat (pr_number pr))),
         (''state'', JStr (if truthy (merged_at pr) then ''merged'' else ''open'')),
         (''author'', JStr (user_login pr)),
         (''labels'',
            JArr (map (\<lambda>(n, col). JObj [(''name'', JStr n), (''color'', JStr col)]) (labels pr))),
         (''additions'', JNum (nat_or_zero (additions pr))),
         (''deletions'', JNum (nat_or_zero (deletions pr))),
         (''draft'', JBool (draft pr)),
         (''mergedAt'', jstr_or_null (merged_at pr)),
         (''updatedAt'', JStr (updated_at pr))]\<rparr>"

definition fetchRepoPRs ::
  "(string \<Rightarrow> rat option) \<Rightarrow> string option \<Rightarrow> string \<Rightarrow> (nat \<Rightarrow> GitHubPR list response)
   \<Rightarrow> article list outcome \<times> event list" where
  \<comment> \<open>\<open>token\<close> is \<^verbatim>\<open>GITHUB_TOKEN\<close>; the request is authenticated only when it is set\<close>
  "fetchRepoPRs Number token repo responses =
     (case fetchWithRetry Number
             (''https://api.github.com/repos/'' @ repo
              @ ''/pulls?state=all&sort=updated&direction=desc&per_page=10'')
             (if truthy token then map_option (\<lambda>t. ''Bearer '' @ t) token else None)
             responses of
        (Threw e, tr) \<Rightarrow> (Threw e, tr)
      | (Returned prs, tr) \<Rightarrow>
          (let relevant = filter (\<lambda>pr. pr_state pr = Open \<or> merged_at pr \<noteq> None) prs
           in (Returned (map (prToArticle (repoShort repo)) relevant), tr)))"

definition fetchGitHubPRs_try ::
  "(string \<Rightarrow> rat option) \<Rightarrow> cache_env \<Rightarrow> string option
   \<Rightarrow> (string \<Rightarrow> nat \<Rightarrow> GitHubPR list response) \<Rightarrow> article list outcome \<times> event list" where
  \<comment> \<open>the \<^verbatim>\<open>try\<close> block: \<^verbatim>\<open>Promise.allSettled\<close> keeps every rejection, the loop drops it;
      the two repositories are fetched at the same time, their events are listed one
      repository after the other\<close>
  "fetchGitHubPRs_try Number c token responses =
     (let results = map (\<lambda>repo. fetchRepoPRs Number token repo (responses repo)) REPOS;
          arts = concat (map (\<lambda>result. case fst result of Returned v \<Rightarrow> v | Threw e \<Rightarrow> []) results);
          tr = concat (map snd results)
      in (Returned arts,
          tr @ (if length arts > 0 then cacheSet (redis c) ''source:github_prs'' arts (60 * 60) else [])))"

definition fetchGitHubPRs ::
  "(string \<Rightarrow> rat option) \<Rightarrow> cache_env \<Rightarrow> string option
   \<Rightarrow> (string \<Rightarrow> nat \<Rightarrow> GitHubPR list response) \<Rightarrow> article list outcome \<times> event list" where
  "fetchGitHubPRs Number c token responses =
     (case cacheGet (redis c) ''source:github_prs'' (first_read c) of
        (Threw e, tr) \<Rightarrow> (Threw e, tr)
      | (Returned (Some cached), tr) \<Rightarrow> (Returned cached, tr)
      | (Returned None, tr) \<Rightarrow>
          (case try_catch (fetchGitHubPRs_try Number c token responses)
                  (stale_or_empty c ''source:github_prs'') of
             (r, tr2) \<Rightarrow> (r, tr @ tr2)))"

section \<open>YouTube (src/lib/sources/youtube.ts) and ProductHunt (src/lib/sources/producthunt.ts)\<close>

text \<open>
  \<^verbatim>\<open>mapVideosToArticles\<close> is a pure function of the payload; it is the parameter
  \<open>mapVideos\<close>, so that what is proved holds whatever it maps the videos to.
\<close>

definition YT_API_BASE :: string where
  "YT_API_BASE =
     ''https://www.googleapis.com/youtube/v3/videos'' @ ''?part=snippet,statistics,contentDetails''
     @ ''&chart=mostPopular'' @ ''&videoCategoryId=28'' @ ''&regionCode=US'' @ ''&maxResults=3''"

definition fetchYouTubeArticles ::
  "('v list \<Rightarrow> article list) \<Rightarrow> cache_env \<Rightarrow> string option \<Rightarrow> 'v list response
   \<Rightarrow> article list outcome \<times> event list" where
  \<comment> \<open>\<open>apiKey\<close> is \<^verbatim>\<open>process.env.YOUTUBE_API_KEY\<close>\<close>
  "fetchYouTubeArticles mapVideos c apiKey resp =
     (case cacheGet (redis c) ''source:youtube'' (first_read c) of
        (Threw e, tr) \<Rightarrow> (Threw e, tr)
      | (Returned (Some cached), tr) \<Rightarrow> (Returned cached, tr)
      | (Returned None, tr) \<Rightarrow>
          (case apiKey of
             None \<Rightarrow> (Returned [], tr)
           | Some k \<Rightarrow>
               if k = [] then (Returned [], tr)
               else
                 (case try_catch
                         (case resp of
                            NetworkError e \<Rightarrow>
                              (Threw (NetworkFailure e), [HttpFetch (YT_API_BASE @ ''&key='' @ k) None])
                          | Response st retryAfter body js \<Rightarrow>
                              if st = 403 then
                                (Threw (Http403 (take 200 body)),
                                 [HttpFetch (YT_API_BASE @ ''&key='' @ k) None])
                              else if \<not> res_ok st then
                                (Threw (HttpStatus st), [HttpFetch (YT_API_BASE @ ''&key='' @ k) None])
                              else
                                (case js of
                                   None \<Rightarrow>
                                     (Threw BodyError, [HttpFetch (YT_API_BASE @ ''&key='' @ k) None])
                                 | Some vids \<Rightarrow>
                                     (let arts = mapVideos vids
                                      in (Returned arts,
                                          HttpFetch (YT_API_BASE @ ''&key='' @ k) None
                                          # cacheSet (redis c) ''source:youtube'' arts (60 * 60)))))
                         (stale_or_empty c ''source:youtube'') of
                    (r, tr2) \<Rightarrow> (r, tr @ tr2))))"

record PHPost =
  ph_id :: string
  ph_name :: string
  tagline :: string
  votesCount :: nat
  ph_url :: string
  thumbnail_url :: "string option"
  topics :: "string list"

definition mapPostsToArticles :: "PHPost list \<Rightarrow> article list" where
  "mapPostsToArticles edges =
     map (\<lambda>node.
        \<lparr>source = Producthunt,
         title = ph_name node,
         url = ph_url node,
         thumbnailUrl = thumbnail_url node,
         excerpt = Some (tagline node),
         score = of_nat (votesCount node),
         externalId = ph_id node,
         metadata =
           [(''votes'', JNum (of_nat (votesCount node))),
            (''tagline'', JStr (tagline node)),
            (''topics'', JArr (map JStr (topics node)))]\<rparr>) edges"

definition PH_API_URL :: string where
  "PH_API_URL = ''https://api.producthunt.com/v2/api/graphql''"

definition fetchProductHuntArticles ::
  "cache_env \<Rightarrow> string option \<Rightarrow> PHPost list response \<Rightarrow> article list outcome \<times> event list" where
  \<comment> \<open>\<open>token\<close> is \<^verbatim>\<open>process.env.PRODUCTHUNT_API_TOKEN\<close>\<close>
  "fetchProductHuntArticles c token resp =
     (case cacheGet (redis c) ''source:producthunt'' (first_read c) of
        (Threw e, tr) \<Rightarrow> (Threw e, tr)
      | (Returned (Some cached), tr) \<Rightarrow> (Returned cached, tr)
      | (Returned None, tr) \<Rightarrow>
          (case token of
             None \<Rightarrow> (Returned [], tr)
           | Some t \<Rightarrow>
               if t = [] then (Returned [], tr)
               else
                 (case try_catch
                         (case resp of
                            NetworkError e \<Rightarrow>
                              (Threw (NetworkFailure e), [HttpFetch PH_API_URL (Some (''Bearer '' @ t))])
                          | Response st retryAfter body js \<Rightarrow>
                              if \<not> res_ok st then
                                (Threw (HttpStatus st), [HttpFetch PH_API_URL (Some (''Bearer '' @ t))])
                              else
                                (case js of
                                   None \<Rightarrow>
                                     (Threw BodyError, [HttpFetch PH_API_URL (Some (''Bearer '' @ t))])
                                 | Some edges \<Rightarrow>
                                     (let arts = mapPostsToArticles edges
                                      in (Returned arts,
                                          HttpFetch PH_API_URL (Some (''Bearer '' @ t))
                                          # cacheSet (redis c) ''source:producthunt'' arts (60 * 60)))))
                         (stale_or_empty c ''source:producthunt'') of
                    (r, tr2) \<Rightarrow> (r, tr @ tr2))))"

section \<open>The edition store (src/lib/db/schema.ts) and the collection route\<close>

datatype EditionType = Morning | Evening

datatype EditionStatus = Draft | Published

record edition_row =
  edition_id :: nat
  edition_type :: EditionType
  edition_date :: string
  publishedAt :: "int option"
  edition_status :: EditionStatus

text \<open>An article row is what the route inserts: the article's columns and \<^verbatim>\<open>editionId\<close>.\<close>

record article_row = article +
  editionId :: nat

text \<open>
  The column \<^verbatim>\<open>source\<close> of the table \<^verbatim>\<open>articles\<close> has the type
  \<^verbatim>\<open>articleSourceEnum\<close>, the Postgres enum \<^verbatim>\<open>article_source\<close>. Its labels are the nine
  that \<^verbatim>\<open>pgEnum\<close> lists; \<^verbatim>\<open>github_prs\<close>, the tenth member of \<^verbatim>\<open>ArticleSource\<close>, is not
  one of them.
\<close>

definition articleSourceEnum :: "ArticleSource list" where
  "articleSourceEnum =
     [Hackernews, Github, Reddit, Producthunt, Tech_rss, Hatena, Bluesky, Youtube, World_news]"

text \<open>
  The \<^verbatim>\<open>id\<close> column is a random UUID that the database generates; here the store hands out
  the next number of a counter.
\<close>

record db =
  editions :: "edition_row list"
  articles :: "article_row list"
  next_uuid :: nat

datatype 'a settled = Fulfilled 'a | Rejected string

datatype result_status = success | failure

record SourceResult =
  sr_source :: string
  sr_status :: result_status
  sr_count :: nat
  sr_error :: "string option"

record WeatherData =
  city :: string
  temperatureCelsius :: rat
  condition :: string
  iconCode :: string

record StockData =
  symbol :: string
  stock_name :: string
  price :: rat
  changeAmount :: rat
  changePercent :: rat
  currency :: string

record widgets =
  weather :: "WeatherData option"
  stocks :: "StockData list"

text \<open>
  What a run is given: the request and the environment variable, the clock, how each of the
  eleven promises of \<^verbatim>\<open>Promise.allSettled\<close> settled (a rejection with
  \<^verbatim>\<open>String(reason)\<close>), and which database calls fail for a reason outside the program
  (the connection, say), each with its error message.
\<close>

record db_faults =
  select_fails :: "string option"
  insert_edition_fails :: "string option"
  insert_articles_fails :: "string option"
  update_fails :: "string option"

record env =
  authorization :: "string option"
  CRON_SECRET :: "string option"
  start_ms :: int
  end_ms :: int
  tokyoHour :: nat
  today :: string
  publish_time :: int
  hnResult :: "article list settled"
  ghResult :: "article list settled"
  ghPrsResult :: "article list settled"
  redditResult :: "article list settled"
  rssResult :: "article list settled"
  hatenaResult :: "article list settled"
  blueskyResult :: "article list settled"
  youtubeResult :: "article list settled"
  phResult :: "article list settled"
  weatherResult :: "WeatherData option settled"
  stockResult :: "StockData list settled"
  redis_configured :: bool
  faults :: db_faults

record world =
  database :: db
  widget_cache :: "(string \<times> widgets \<times> nat) list"

record summary =
  sum_editionId :: nat
  sum_editionType :: EditionType
  sum_date :: string
  articlesCollected :: nat
  sum_sources :: "SourceResult list"
  elapsedMs :: int

datatype route_response =
    Unauthorized
  | Skipped nat
  | Collected summary
  | Failed string "SourceResult list" int

fun http_status :: "route_response \<Rightarrow> nat" where
  "http_status Unauthorized = 401"
| "http_status (Skipped i) = 200"
| "http_status (Collected s) = 200"
| "http_status (Failed msg srcs ms) = 500"

fun response_status :: "route_response \<Rightarrow> string" where
  \<comment> \<open>the \<^verbatim>\<open>status\<close> field of the JSON body; the 401 body has none\<close>
  "response_status Unauthorized = ''''"
| "response_status (Skipped i) = ''skipped''"
| "response_status (Collected s) = ''success''"
| "response_status (Failed msg srcs ms) = ''error''"

fun source_name :: "ArticleSource \<Rightarrow> string" where
  "source_name Hackernews = ''hackernews''"
| "source_name Github = ''github''"
| "source_name Github_prs = ''github_prs''"
| "source_name Reddit = ''reddit''"
| "source_name Producthunt = ''producthunt''"
| "source_name Tech_rss = ''tech_rss''"
| "source_name Hatena = ''hatena''"
| "source_name Bluesky = ''bluesky''"
| "source_name Youtube = ''youtube''"
| "source_name World_news = ''world_news''"

definition WIDGET_CACHE_KEY :: string where
  "WIDGET_CACHE_KEY = ''edition:widgets''"

definition WIDGET_CACHE_TTL :: nat where
  "WIDGET_CACHE_TTL = 30 * 60"

definition determineEditionType :: "nat \<Rightarrow> EditionType" where
  "determineEditionType hour = (if hour < 12 then Morning else Evening)"

definition articleSources :: "env \<Rightarrow> (ArticleSource \<times> article list settled) list" where
  "articleSources e =
     [(Hackernews, hnResult e), (Github, ghResult e), (Github_prs, ghPrsResult e),
      (Reddit, redditResult e), (Tech_rss, rssResult e), (Hatena, hatenaResult e),
      (Bluesky, blueskyResult e), (Youtube, youtubeResult e), (Producthunt, phResult e)]"

definition process_source :: "ArticleSource \<Rightarrow> article list settled \<Rightarrow> article list \<times> SourceResult" where
  \<comment> \<open>one turn of the loop: what it pushes to \<^verbatim>\<open>allArticles\<close> and to \<^verbatim>\<open>sourceResults\<close>\<close>
  "process_source name result =
     (case result of
        Fulfilled v \<Rightarrow>
          if length v > 0 then
            (let normalized = normalizeScores v name;
                 topN = selectTopN normalized (TOP_N_PER_SOURCE name)
             in (topN,
                 \<lparr>sr_source = source_name name, sr_status = success,
                  sr_count = length topN, sr_error = None\<rparr>))
          else
            ([], \<lparr>sr_source = source_name name, sr_status = failure,
                  sr_count = 0, sr_error = Some ''No articles returned''\<rparr>)
      | Rejected reason \<Rightarrow>
          ([], \<lparr>sr_source = source_name name, sr_status = failure,
                sr_count = 0, sr_error = Some reason\<rparr>))"

definition article_values :: "nat \<Rightarrow> article \<Rightarrow> article_row" where
  "article_values eid a =
     \<lparr>source = source a, title = title a, url = url a, thumbnailUrl = thumbnailUrl a,
      excerpt = excerpt a, score = Math_round (score a), externalId = externalId a,
      metadata = metadata a, editionId = eid\<rparr>"

text \<open>
  The insert of the articles is one statement. The database refuses it as a whole when a
  row holds, in the column \<^verbatim>\<open>source\<close>, a value that is not a label of the enum; the
  message names the first such value.
\<close>

definition enum_error :: "article_row list \<Rightarrow> string option" where
  "enum_error rows =
     (case filter (\<lambda>r. source r \<notin> set articleSourceEnum) rows of
        [] \<Rightarrow> None
      | r # rest \<Rightarrow>
          Some (''invalid input value for enum article_source: '' @ source_name (source r)))"

definition insert_articles_error :: "db_faults \<Rightarrow> article_row list \<Rightarrow> string option" where
  "insert_articles_error f rows =
     (case insert_articles_fails f of
        Some msg \<Rightarrow> Some msg
      | None \<Rightarrow> enum_error rows)"

definition weather_result :: "WeatherData option settled \<Rightarrow> SourceResult" where
  "weather_result r =
     (case r of
        Fulfilled (Some w) \<Rightarrow>
          \<lparr>sr_source = ''weather'', sr_status = success, sr_count = 1, sr_error = None\<rparr>
      | Fulfilled None \<Rightarrow>
          \<lparr>sr_source = ''weather'', sr_status = failure, sr_count = 0, sr_error = Some ''No data''\<rparr>
      | Rejected reason \<Rightarrow>
          \<lparr>sr_source = ''weather'', sr_status = failure, sr_count = 0, sr_error = Some reason\<rparr>)"

definition stocks_result :: "StockData list settled \<Rightarrow> SourceResult" where
  "stocks_result r =
     (case r of
        Fulfilled v \<Rightarrow>
          if length v > 0 then
            \<lparr>sr_source = ''stocks'', sr_status = success, sr_count = length v, sr_error = None\<rparr>
          else
            \<lparr>sr_source = ''stocks'', sr_status = failure, sr_count = 0, sr_error = Some ''No data''\<rparr>
      | Rejected reason \<Rightarrow>
          \<lparr>sr_source = ''stocks'', sr_status = failure, sr_count = 0, sr_error = Some reason\<rparr>)"

definition widget_value :: "env \<Rightarrow> widgets" where
  "widget_value e =
     \<lparr>weather = (case weatherResult e of Fulfilled v \<Rightarrow> v | Rejected reason \<Rightarrow> None),
      stocks = (case stockResult e of Fulfilled v \<Rightarrow> v | Rejected reason \<Rightarrow> [])\<rparr>"

definition same_slot :: "EditionType \<Rightarrow> string \<Rightarrow> edition_row \<Rightarrow> bool" where
  \<comment> \<open>\<^verbatim>\<open>and(eq(editions.type, editionType), eq(editions.date, today))\<close>\<close>
  "same_slot ty dt e = (edition_type e = ty \<and> edition_date e = dt)"

definition publish :: "nat \<Rightarrow> int \<Rightarrow> edition_row \<Rightarrow> edition_row" where
  \<comment> \<open>the update, on one row: \<^verbatim>\<open>where(eq(editions.id, edition.id))\<close>\<close>
  "publish eid t e =
     (if edition_id e = eid then e\<lparr>edition_status := Published, publishedAt := Some t\<rparr> else e)"

definition collect :: "env \<Rightarrow> world \<Rightarrow> route_response \<times> world" where
  \<comment> \<open>the \<^verbatim>\<open>try\<close> block and its \<^verbatim>\<open>catch\<close>: a failing database call ends the run with
      status 500 and the source results pushed so far\<close>
  "collect e w =
     (let editionType = determineEditionType (tokyoHour e);
          dt = today e;
          d = database w;
          elapsed = end_ms e - start_ms e
      in case select_fails (faults e) of
           Some msg \<Rightarrow> (Failed msg [] elapsed, w)
         | None \<Rightarrow>
             (case take 1 (filter (same_slot editionType dt) (editions d)) of
                existing # rest \<Rightarrow> (Skipped (edition_id existing), w)
              | [] \<Rightarrow>
                  (case insert_edition_fails (faults e) of
                     Some msg \<Rightarrow> (Failed msg [] elapsed, w)
                   | None \<Rightarrow>
                       (let eid = next_uuid d;
                            d1 = d\<lparr>editions := editions d @
                                     [\<lparr>edition_id = eid, edition_type = editionType,
                                       edition_date = dt, publishedAt = None,
                                       edition_status = Draft\<rparr>],
                                   next_uuid := Suc eid\<rparr>;
                            processed = map (\<lambda>(name, result). process_source name result)
                                            (articleSources e);
                            allArticles = concat (map fst processed);
                            sourceResults = map snd processed
                        in case (if length allArticles > 0
                                 then insert_articles_error (faults e)
                                        (map (article_values eid) allArticles)
                                 else None) of
                             Some msg \<Rightarrow> (Failed msg sourceResults elapsed, w\<lparr>database := d1\<rparr>)
                           | None \<Rightarrow>
                               (let d2 = (if length allArticles > 0
                                          then d1\<lparr>articles := articles d1 @
                                                    map (article_values eid) allArticles\<rparr>
                                          else d1);
                                    sourceResults2 = sourceResults @
                                      [weather_result (weatherResult e), stocks_result (stockResult e)];
                                    w2 = w\<lparr>database := d2,
                                           widget_cache := widget_cache w @
                                             (if redis_configured e
                                              then [(WIDGET_CACHE_KEY, widget_value e, WIDGET_CACHE_TTL)]
                                              else [])\<rparr>
                                in case update_fails (faults e) of
                                     Some msg \<Rightarrow> (Failed msg sourceResults2 elapsed, w2)
                                   | None \<Rightarrow>
                                       (Collected
                                          \<lparr>sum_editionId = eid, sum_editionType = editionType,
                                           sum_date = dt,
                                           articlesCollected = length allArticles,
                                           sum_sources = sourceResults2, elapsedMs = elapsed\<rparr>,
                                        w2\<lparr>database :=
                                             d2\<lparr>editions :=
                                                  map (publish eid (publish_time e)) (editions d2)\<rparr>\<rparr>))))))"

definition GET :: "env \<Rightarrow> world \<Rightarrow> route_response \<times> world" where
  \<comment> \<open>\<^verbatim>\<open>if (cronSecret && authHeader !== `Bearer ${cronSecret}`)\<close> answers 401\<close>
  "GET e w =
     (case CRON_SECRET e of
        None \<Rightarrow> collect e w
      | Some cronSecret \<Rightarrow>
          if cronSecret \<noteq> [] \<and> authorization e \<noteq> Some (''Bearer '' @ cronSecret)
          then (Unauthorized, w)
          else collect e w)"

definition slot_count :: "EditionType \<Rightarrow> string \<Rightarrow> db \<Rightarrow> nat" where
  "slot_count ty dt d = length (filter (same_slot ty dt) (editions d))"

definition slot_unique :: "db \<Rightarrow> bool" where
  \<comment> \<open>at most one edition per (type, date)\<close>
  "slot_unique d = distinct (map (\<lambda>r. (edition_type r, edition_date r)) (editions d))"

definition ids_fresh :: "db \<Rightarrow> bool" where
  \<comment> \<open>the counter is ahead of every id in use, as a generated UUID is new\<close>
  "ids_fresh d = list_all (\<lambda>r. edition_id r < next_uuid d) (editions d)"

definition collected_articles :: "env \<Rightarrow> article list" where
  \<comment> \<open>the union, in source order, of the top-N normalised articles of the sources that
      fulfilled with at least one article\<close>
  "collected_articles e =
     concat (map (\<lambda>(name, result).
                    case result of
                      Fulfilled v \<Rightarrow>
                        if v \<noteq> [] then selectTopN (normalizeScores v name) (TOP_N_PER_SOURCE name)
                        else []
                    | Rejected reason \<Rightarrow> [])
                 (articleSources e))"

text \<open>
  The specification's words for the articles of an edition: the union, over the sources
  that succeeded, of the top-K normalised articles of each, K being the source's entry of
  \<^verbatim>\<open>TOP_N_PER_SOURCE\<close> and top-K the stable descending sort cut at K.
\<close>

definition spec_edition_articles :: "env \<Rightarrow> article list" where
  "spec_edition_articles e =
     concat (map (\<lambda>(name, result).
                    case result of
                      Fulfilled v \<Rightarrow> spec_topK (normalizeScores v name) (TOP_N_PER_SOURCE name)
                    | Rejected reason \<Rightarrow> [])
                 (articleSources e))"

section \<open>Concrete inputs for the examples\<close>

definition sample_article :: "string \<Rightarrow> rat \<Rightarrow> article" where
  "sample_article name s =
     \<lparr>source = Github, title = name, url = ''https://example.org/'' @ name, thumbnailUrl = None,
      excerpt = None, score = s, externalId = name, metadata = []\<rparr>"

definition sample_heap :: heap where
  "sample_heap =
     \<lparr>arrays = (\<lambda>r. [])(0 := [sample_article ''a'' 10, sample_article ''b'' 90,
                                 sample_article ''c'' 10, sample_article ''d'' 50]),
      next_ref = 1\<rparr>"

definition cache_down :: cache_env where
  "cache_down = \<lparr>redis = True, first_read = Fails ''fetch failed'', second_read = Miss\<rparr>"

definition cache_down_later :: cache_env where
  "cache_down_later = \<lparr>redis = True, first_read = Miss, second_read = Fails ''fetch failed''\<rparr>"

definition cache_refilled :: cache_env where
  "cache_refilled =
     \<lparr>redis = True, first_read = Miss, second_read = Hit [sample_article ''prior'' 1]\<rparr>"

definition cache_empty :: cache_env where
  "cache_empty = \<lparr>redis = True, first_read = Miss, second_read = Miss\<rparr>"

definition no_number :: "string \<Rightarrow> rat option" where
  "no_number s = None"

definition server_error :: "nat \<Rightarrow> 'p response" where
  "server_error i = Response 500 None [] None"

definition sample_Number :: "string \<Rightarrow> rat option" where
  "sample_Number s = (if s = ''7'' then Some 7 else None)"

definition sample_responses :: "nat \<Rightarrow> GitHubSearchResponse response" where
  "sample_responses i =
     (if i = 0 then Response 429 (Some ''7'') [] None
      else if i = 1 then Response 403 None [] None
      else Response 500 None [] None)"

definition sample_env :: env where
  "sample_env =
     \<lparr>authorization = None, CRON_SECRET = None, start_ms = 1000, end_ms = 4500, tokyoHour = 6,
      today = ''2026-02-07'', publish_time = 4400,
      hnResult = Fulfilled [sample_article ''h1'' 120, sample_article ''h2'' 600,
                            sample_article ''h3'' 30, sample_article ''h4'' 250,
                            sample_article ''h5'' 0],
      ghResult = Fulfilled [sample_article ''g1'' 2875, sample_article ''g2'' 9000,
                            sample_article ''g3'' 40],
      ghPrsResult = Rejected ''Error: connect ETIMEDOUT'',
      redditResult = Fulfilled [], rssResult = Fulfilled [], hatenaResult = Fulfilled [],
      blueskyResult = Fulfilled [], youtubeResult = Fulfilled [], phResult = Fulfilled [],
      weatherResult = Fulfilled None, stockResult = Rejected ''Error: 503'',
      redis_configured = True,
      faults = \<lparr>select_fails = None, insert_edition_fails = None,
                insert_articles_fails = None, update_fails = None\<rparr>\<rparr>"

definition sample_world :: world where
  "sample_world =
     \<lparr>database =
        \<lparr>editions = [\<lparr>edition_id = 0, edition_type = Evening, edition_date = ''2026-02-06'',
                      publishedAt = Some 10, edition_status = Published\<rparr>],
         articles = [], next_uuid = 1\<rparr>,
      widget_cache = []\<rparr>"

definition all_failing_env :: env where
  "all_failing_env =
     sample_env\<lparr>hnResult := Rejected ''Error: down'', ghResult := Fulfilled []\<rparr>"

definition evening_env :: env where
  "evening_env = sample_env\<lparr>tokyoHour := 18, today := ''2026-02-06''\<rparr>"

definition rate_limited :: "nat \<Rightarrow> GitHubSearchResponse response" where
  "rate_limited i = Response 429 None [] None"

definition locked_env :: env where
  "locked_env = sample_env\<lparr>CRON_SECRET := Some ''s3cret'', authorization := Some ''Bearer guess''\<rparr>"

definition sample_pr :: GitHubPR where
  "sample_pr =
     \<lparr>pr_number = 31415, pr_title = ''Fix hydration mismatch'',
      pr_html_url = ''https://github.com/facebook/react/pull/31415'', pr_state = Open,
      pr_body = None, pr_comments = Some 4, review_comments = Some 2, additions = Some 10,
      deletions = Some 3, draft = False, merged_at = None,
      updated_at = ''2026-02-06T21:00:00Z'', labels = [], user_login = ''octocat'',
      user_avatar_url = ''https://avatars.githubusercontent.com/u/583231''\<rparr>"

definition prs_env :: env where
  \<comment> \<open>as \<open>sample_env\<close>, but the pull-request fetcher delivers one article\<close>
  "prs_env = sample_env\<lparr>ghPrsResult := Fulfilled [prToArticle ''react'' sample_pr]\<rparr>"

definition bluesky_post :: "string \<Rightarrow> rat \<Rightarrow> article" where
  "bluesky_post name s = (sample_article name s)\<lparr>source := Bluesky\<rparr>"

definition partial_env :: env where
  \<comment> \<open>eight sources fail, Bluesky delivers four posts\<close>
  "partial_env =
     all_failing_env
       \<lparr>blueskyResult := Fulfilled [bluesky_post ''b1'' 0, bluesky_post ''b2'' 300,
                                    bluesky_post ''b3'' 0, bluesky_post ''b4'' 200]\<rparr>"

section \<open>Facts about the number model\<close>

lemma rne_of_int: "rne (of_int n) = n"
  by (simp add: rne_def)

lemma rne_bounds: "\<lfloor>y\<rfloor> \<le> rne y" "rne y \<le> \<lfloor>y\<rfloor> + 1"
  by (simp_all add: rne_def Let_def)

lemma rne_mono:
  assumes "y \<le> z"
  shows "rne y \<le> rne z"
proof (cases "\<lfloor>y\<rfloor> = \<lfloor>z\<rfloor>")
  case True
  with assms have "y - of_int \<lfloor>y\<rfloor> \<le> z - of_int \<lfloor>z\<rfloor>" by simp
  with True show ?thesis by (auto simp: rne_def Let_def)
next
  case False
  with assms have "\<lfloor>y\<rfloor> < \<lfloor>z\<rfloor>" by (simp add: floor_mono order.strict_iff_order)
  then have "rne y \<le> \<lfloor>z\<rfloor>" using rne_bounds(2)[of y] by linarith
  then show ?thesis using rne_bounds(1)[of z] by linarith
qed

lemma expo_bounds:
  assumes "0 < a"
  shows "2 powi (expo a) \<le> a" and "a < 2 powi (expo a + 1)"
proof -
  obtain p q where pq: "quotient_of a = (p, q)" by force
  have q: "0 < q" using quotient_of_denom_pos[OF pq] .
  have a: "a = of_int p / of_int q" using quotient_of_div[OF pq] .
  have p: "0 < p" using assms a q by (simp add: zero_less_divide_iff)
  define bp where "bp = bitlen p"
  define bq where "bq = bitlen q"
  have bp1: "1 \<le> bp" and bq1: "1 \<le> bq"
    using p q bitlen_eq_zero_iff[of p] bitlen_eq_zero_iff[of q] bitlen_nonneg[of p] bitlen_nonneg[of q]
    unfolding bp_def bq_def by linarith+
  have pl: "(2::rat) powi (bp - 1) \<le> of_int p" and pu: "of_int p < (2::rat) powi bp"
   and ql: "(2::rat) powi (bq - 1) \<le> of_int q" and qu: "of_int q < (2::rat) powi bq"
  proof -
    have "(2::rat) powi (bp - 1) = of_int (2 ^ nat (bp - 1))"
      using bp1 by (simp add: power_int_def)
    then show "(2::rat) powi (bp - 1) \<le> of_int p"
      using bitlen_bounds[OF p] unfolding bp_def by (simp only: of_int_le_iff)
    have "(2::rat) powi bp = of_int (2 ^ nat bp)"
      using bp1 by (simp add: power_int_def)
    then show "of_int p < (2::rat) powi bp"
      using bitlen_bounds[OF p] unfolding bp_def by (simp only: of_int_less_iff)
    have "(2::rat) powi (bq - 1) = of_int (2 ^ nat (bq - 1))"
      using bq1 by (simp add: power_int_def)
    then show "(2::rat) powi (bq - 1) \<le> of_int q"
      using bitlen_bounds[OF q] unfolding bq_def by (simp only: of_int_le_iff)
    have "(2::rat) powi bq = of_int (2 ^ nat bq)"
      using bq1 by (simp add: power_int_def)
    then show "of_int q < (2::rat) powi bq"
      using bitlen_bounds[OF q] unfolding bq_def by (simp only: of_int_less_iff)
  qed
  have lower: "(2::rat) powi (bp - bq - 1) < a"
  proof -
    have "(2::rat) powi (bp - bq - 1) = 2 powi (bp - 1) / 2 powi bq"
      using power_int_diff[of "2::rat" "bp - 1" bq] by (simp add: algebra_simps)
    also have "\<dots> < of_int p / of_int q"
      by (rule frac_less2) (use pl qu q in simp_all)
    finally show ?thesis by (simp add: a)
  qed
  have upper: "a < (2::rat) powi (bp - bq + 1)"
  proof -
    have "of_int p / of_int q < (2::rat) powi bp / 2 powi (bq - 1)"
      by (rule frac_less) (use pu ql p in simp_all)
    also have "\<dots> = 2 powi (bp - bq + 1)"
      using power_int_diff[of "2::rat" bp "bq - 1"] by (simp add: algebra_simps)
    finally show ?thesis by (simp add: a)
  qed
  have e: "expo a = (if 2 powi (bp - bq) \<le> a then bp - bq else bp - bq - 1)"
    by (simp add: expo_def pq bp_def bq_def Let_def)
  show "2 powi (expo a) \<le> a" using lower by (auto simp: e)
  show "a < 2 powi (expo a + 1)" using upper by (auto simp: e)
qed

lemma fl_zero: "fl 0 = 0"
  by (simp add: fl_def)

lemma fl_minus: "fl (- x) = - fl x"
  by (simp add: fl_def Let_def)

lemma fl_pos_eq:
  "0 < x \<Longrightarrow> fl x = of_int (rne (x / 2 powi (expo x - 52))) * 2 powi (expo x - 52)"
  by (simp add: fl_def Let_def)

lemma scaled_bounds:
  assumes "0 < x"
  shows "2 ^ 52 \<le> x / 2 powi (expo x - 52)" and "x / 2 powi (expo x - 52) < 2 ^ 53"
proof -
  have u: "(2::rat) powi (expo x - 52) = 2 powi expo x / 2 ^ 52"
    using power_int_diff[of "2::rat" "expo x" 52] by simp
  have "(2::rat) powi (expo x + 1) = 2 powi expo x * 2"
    using power_int_add[of "2::rat" "expo x" 1] by simp
  with expo_bounds[OF assms] have "2 powi expo x \<le> x" "x < 2 powi expo x * 2" by simp_all
  moreover have "0 < (2::rat) powi expo x" by simp
  ultimately show "2 ^ 52 \<le> x / 2 powi (expo x - 52)" "x / 2 powi (expo x - 52) < 2 ^ 53"
    unfolding u by (simp_all add: field_simps)
qed

lemma rne_scaled_bounds:
  assumes "0 < x"
  shows "2 ^ 52 \<le> rne (x / 2 powi (expo x - 52))" and "rne (x / 2 powi (expo x - 52)) \<le> 2 ^ 53"
proof -
  have "rne (of_int (2 ^ 52)) \<le> rne (x / 2 powi (expo x - 52))"
    by (rule rne_mono) (use scaled_bounds(1)[OF assms] in simp)
  then show "2 ^ 52 \<le> rne (x / 2 powi (expo x - 52))" by (simp only: rne_of_int)
  have "rne (x / 2 powi (expo x - 52)) \<le> rne (of_int (2 ^ 53))"
    by (rule rne_mono) (use scaled_bounds(2)[OF assms] in simp)
  then show "rne (x / 2 powi (expo x - 52)) \<le> 2 ^ 53" by (simp only: rne_of_int)
qed

lemma fl_pos_bounds:
  assumes "0 < x"
  shows "2 powi expo x \<le> fl x" and "fl x \<le> 2 powi (expo x + 1)"
proof -
  have u: "(2::rat) powi expo x = 2 ^ 52 * 2 powi (expo x - 52)"
    using power_int_diff[of "2::rat" "expo x" 52] by simp
  have v: "(2::rat) powi (expo x + 1) = 2 ^ 53 * 2 powi (expo x - 52)"
    using power_int_add[of "2::rat" "expo x" 1] u by simp
  have pos: "0 < (2::rat) powi (expo x - 52)" by simp
  have "(2::rat) ^ 52 \<le> of_int (rne (x / 2 powi (expo x - 52)))"
    using rne_scaled_bounds(1)[OF assms] by (metis of_int_le_iff of_int_numeral of_int_power)
  then show "2 powi expo x \<le> fl x"
    unfolding u fl_pos_eq[OF assms] using pos by (simp only: mult_le_cancel_right_pos)
  have "of_int (rne (x / 2 powi (expo x - 52))) \<le> (2::rat) ^ 53"
    using rne_scaled_bounds(2)[OF assms] by (metis of_int_le_iff of_int_numeral of_int_power)
  then show "fl x \<le> 2 powi (expo x + 1)"
    unfolding v fl_pos_eq[OF assms] using pos by (simp only: mult_le_cancel_right_pos)
qed

lemma fl_pos: "0 < x \<Longrightarrow> 0 < fl x"
  using fl_pos_bounds(1)[of x] zero_less_power_int[of "2::rat" "expo x"] by linarith

lemma fl_neg: "x < 0 \<Longrightarrow> fl x < 0"
  using fl_pos[of "- x"] by (simp add: fl_minus)

lemma fl_mono_pos:
  assumes "0 < x" "x \<le> y"
  shows "fl x \<le> fl y"
proof -
  have y: "0 < y" using assms by simp
  have le: "expo x \<le> expo y"
  proof (rule ccontr)
    assume "\<not> expo x \<le> expo y"
    then have "expo y + 1 \<le> expo x" by simp
    then have "(2::rat) powi (expo y + 1) \<le> 2 powi expo x"
      by (intro power_int_increasing) simp_all
    with expo_bounds(2)[OF y] expo_bounds(1)[OF assms(1)] assms(2) show False by linarith
  qed
  show ?thesis
  proof (cases "expo x = expo y")
    case True
    have "x / 2 powi (expo y - 52) \<le> y / 2 powi (expo y - 52)"
      using assms(2) by (simp add: divide_right_mono)
    then have "rne (x / 2 powi (expo y - 52)) \<le> rne (y / 2 powi (expo y - 52))"
      by (rule rne_mono)
    then show ?thesis
      unfolding fl_pos_eq[OF assms(1)] fl_pos_eq[OF y] True
      by (simp add: mult_right_mono)
  next
    case False
    with le have "expo x + 1 \<le> expo y" by simp
    then have "(2::rat) powi (expo x + 1) \<le> 2 powi expo y"
      by (intro power_int_increasing) simp_all
    with fl_pos_bounds(2)[OF assms(1)] fl_pos_bounds(1)[OF y] show ?thesis by linarith
  qed
qed

lemma fl_mono:
  assumes "x \<le> y"
  shows "fl x \<le> fl y"
proof -
  consider "0 < x" | "x \<le> 0" "0 \<le> y" | "y < 0" using assms by linarith
  then show ?thesis
  proof cases
    case 1
    then show ?thesis using assms by (rule fl_mono_pos)
  next
    case 2
    have "fl x \<le> 0" using 2(1) fl_neg[of x] by (cases "x = 0") (simp_all add: fl_zero)
    moreover have "0 \<le> fl y" using 2(2) fl_pos[of y] by (cases "y = 0") (simp_all add: fl_zero)
    ultimately show ?thesis by simp
  next
    case 3
    then have "fl (- y) \<le> fl (- x)" using assms by (intro fl_mono_pos) simp_all
    then show ?thesis by (simp add: fl_minus)
  qed
qed

lemma fl_sign: "fl x \<le> 0 \<longleftrightarrow> x \<le> 0"
  using fl_pos[of x] fl_neg[of x] fl_zero by (cases "x = 0"; cases "0 < x") auto

lemma Math_round_of_int: "Math_round (of_int n) = of_int n"
  unfolding Math_round_def by (simp add: floor_unique)

section \<open>Facts about score normalisation\<close>

lemma fl_consts: "fl 1 = 1" "fl 100 = 100"
  by code_simp+

lemma Math_round_consts: "Math_round 0 = 0" "Math_round 100 = 100"
  using Math_round_of_int[of 0] Math_round_of_int[of 100] by simp_all

lemma fl_ge_const:
  assumes "c \<le> x" "fl c = c"
  shows "c \<le> fl x"
  using fl_mono[OF assms(1)] assms(2) by simp

lemma normalized_score_range: "0 \<le> normalized_score rng s \<and> normalized_score rng s \<le> 100"
proof -
  define c where "c = Math_min 100 (Math_max 0 (js_mul (js_div (js_sub s (range_min rng))
                             (js_sub (range_max rng) (range_min rng))) 100))"
  have c: "0 \<le> c" "c \<le> 100" by (simp_all add: c_def Math_min_def Math_max_def)
  have "normalized_score rng s = of_int \<lfloor>c + 1/2\<rfloor>"
    by (simp add: normalized_score_def c_def Math_round_def)
  moreover have "0 \<le> \<lfloor>c + 1/2\<rfloor>" using c(1) by simp
  moreover have "\<lfloor>c + 1/2\<rfloor> \<le> 100" using c(2) by (simp add: floor_le_iff)
  ultimately show ?thesis by simp
qed

lemma normalized_score_int: "normalized_score rng s \<in> \<int>"
  by (simp add: normalized_score_def Math_round_def)

lemma normalized_score_low:
  assumes "range_min rng < range_max rng" "s \<le> range_min rng"
  shows "normalized_score rng s = 0"
proof -
  have d: "0 < js_sub (range_max rng) (range_min rng)"
    using assms(1) by (simp add: js_sub_def fl_pos)
  have n: "js_sub s (range_min rng) \<le> 0"
    using assms(2) by (simp add: js_sub_def fl_sign)
  have "js_sub s (range_min rng) / js_sub (range_max rng) (range_min rng) \<le> 0"
    using d n by (simp add: divide_le_0_iff)
  then have "js_div (js_sub s (range_min rng)) (js_sub (range_max rng) (range_min rng)) \<le> 0"
    by (simp add: js_div_def fl_sign)
  then have "js_mul (js_div (js_sub s (range_min rng)) (js_sub (range_max rng) (range_min rng))) 100 \<le> 0"
    by (simp add: js_mul_def fl_sign mult_le_0_iff)
  then show ?thesis
    by (simp add: normalized_score_def Math_max_def Math_min_def Math_round_consts max_absorb1)
qed

lemma normalized_score_high:
  assumes "range_min rng < range_max rng" "range_max rng \<le> s"
  shows "normalized_score rng s = 100"
proof -
  define D where "D = js_sub (range_max rng) (range_min rng)"
  define N where "N = js_sub s (range_min rng)"
  have d: "0 < D" using assms(1) by (simp add: D_def js_sub_def fl_pos)
  have "D \<le> N" unfolding D_def N_def js_sub_def using assms(2) by (intro fl_mono) simp
  then have "1 \<le> N / D" using d by simp
  then have q: "1 \<le> js_div N D" unfolding js_div_def by (rule fl_ge_const) (rule fl_consts)
  then have "100 \<le> js_div N D * 100" by simp
  then have "100 \<le> js_mul (js_div N D) 100" unfolding js_mul_def by (rule fl_ge_const) (rule fl_consts)
  then show ?thesis
    by (simp add: normalized_score_def Math_max_def Math_min_def Math_round_consts D_def N_def
                  max_absorb2 min_absorb1)
qed

lemma SCORE_RANGES_ordered: "range_min (SCORE_RANGES src) < range_max (SCORE_RANGES src)"
  by (cases src) simp_all

lemma normalizeScores_keeps_fields:
  "map (\<lambda>a. a\<lparr>score := 0\<rparr>) (normalizeScores arts src) = map (\<lambda>a. a\<lparr>score := 0\<rparr>) arts"
  by (simp add: normalizeScores_def Let_def)

lemma normalizeScores_scores:
  "map score (normalizeScores arts src) = map (\<lambda>a. normalized_score (SCORE_RANGES src) (score a)) arts"
  by (simp add: normalizeScores_def Let_def)

lemma normalized_score_scenario:
  "map (normalized_score (SCORE_RANGES Hackernews)) [0, 250, 600] = [0, 50, 100]"
  by code_simp

lemma normalized_score_2875:
  "normalized_score (SCORE_RANGES Github) 2875 = 57"
  "spec_normalized_score (SCORE_RANGES Github) 2875 = 58"
  by code_simp+

lemma formula_in_doubles_2875:
  "Math_round (js_div (js_mul 100 (js_sub 2875 0)) (js_sub 5000 0)) = 58"
  by code_simp

lemma rne_err: "\<bar>of_int (rne y) - y\<bar> \<le> 1/2"
proof -
  have "of_int \<lfloor>y\<rfloor> \<le> y" "y < of_int \<lfloor>y\<rfloor> + 1" by linarith+
  then show ?thesis by (auto simp: rne_def Let_def)
qed

lemma fl_err:
  assumes "0 < x"
  shows "\<bar>fl x - x\<bar> \<le> x / 2 ^ 53"
proof -
  define u :: rat where "u = 2 powi (expo x - 52)"
  have u: "0 < u" by (simp add: u_def)
  have ux: "u * 2 ^ 52 \<le> x"
    using scaled_bounds(1)[OF assms] u unfolding u_def by (simp add: field_simps)
  have "fl x - x = (of_int (rne (x / u)) - x / u) * u"
    using u by (simp add: fl_pos_eq[OF assms] u_def[symmetric] field_simps)
  then have "\<bar>fl x - x\<bar> = \<bar>of_int (rne (x / u)) - x / u\<bar> * u"
    using u by (simp add: abs_mult)
  also have "\<dots> \<le> (1/2) * u"
    using rne_err[of "x / u"] u by (intro mult_right_mono) simp_all
  also have "\<dots> \<le> x / 2 ^ 53" using ux by simp
  finally show ?thesis .
qed

lemma fl_rel:
  assumes "0 \<le> x"
  shows "(999/1000) * x \<le> fl x" and "fl x \<le> (1001/1000) * x"
proof -
  have "\<bar>fl x - x\<bar> \<le> x / 1000"
  proof (cases "x = 0")
    case True then show ?thesis by (simp add: fl_zero)
  next
    case False
    with assms have x: "0 < x" by simp
    have "x / 2 ^ 53 \<le> x / 1000" using x by (intro divide_left_mono) simp_all
    with fl_err[OF x] show ?thesis by linarith
  qed
  then show "(999/1000) * x \<le> fl x" and "fl x \<le> (1001/1000) * x" by linarith+
qed

lemma Math_round_close:
  assumes "\<bar>c - d\<bar> < 1"
  shows "\<bar>Math_round c - Math_round d\<bar> \<le> 1"
proof -
  define i where "i = \<lfloor>c + 1/2\<rfloor>"
  define j where "j = \<lfloor>d + 1/2\<rfloor>"
  have fl: "of_int i \<le> c + 1/2" "c + 1/2 < of_int i + 1" "of_int j \<le> d + 1/2" "d + 1/2 < of_int j + 1"
    unfolding i_def j_def by linarith+
  have "(of_int i :: rat) < of_int j + 2" "(of_int j :: rat) < of_int i + 2"
    using assms fl by linarith+
  then have "(of_int i :: rat) < of_int (j + 2)" "(of_int j :: rat) < of_int (i + 2)"
    by simp_all
  then have "i < j + 2" "j < i + 2" by (simp_all only: of_int_less_iff)
  then have "\<bar>i - j\<bar> \<le> 1" by linarith
  then have "(of_int \<bar>i - j\<bar> :: rat) \<le> of_int 1" by (simp only: of_int_le_iff)
  then have "\<bar>(of_int i :: rat) - of_int j\<bar> \<le> 1" by simp
  then show ?thesis by (simp add: Math_round_def i_def j_def)
qed

lemma normalized_score_mid:
  assumes r: "range_min rng = 0" "fl (range_max rng) = range_max rng"
    and s: "0 < s" "s < range_max rng"
  shows "\<bar>normalized_score rng s - spec_normalized_score rng s\<bar> \<le> 1"
proof -
  define M where "M = range_max rng"
  define t where "t = s / M"
  define a where "a = fl s / M"
  define q where "q = fl a"
  define v where "v = fl (q * 100)"
  have M: "0 < M" using s by (simp add: M_def)
  have t: "0 < t" "t < 1" using s M by (simp_all add: t_def M_def)
  have "(999/1000) * s \<le> fl s" "fl s \<le> (1001/1000) * s" using fl_rel[of s] s by simp_all
  then have a: "(999/1000) * t \<le> a" "a \<le> (1001/1000) * t"
    using M by (simp_all add: a_def t_def field_simps)
  then have a0: "0 \<le> a" using t by linarith
  have q: "(999/1000) * a \<le> q" "q \<le> (1001/1000) * a" unfolding q_def using fl_rel[OF a0] by simp_all
  then have q0: "0 \<le> q * 100" using a0 by linarith
  have v: "(999/1000) * (q * 100) \<le> v" "v \<le> (1001/1000) * (q * 100)"
    unfolding v_def using fl_rel[OF q0] by simp_all
  have close: "\<bar>v - 100 * t\<bar> \<le> 31/100" using a q v t by linarith
  define c where "c = Math_min 100 (Math_max 0 v)"
  have c: "\<bar>c - 100 * t\<bar> < 1"
  proof -
    have "c = (if v \<le> 0 then 0 else if v \<le> 100 then v else 100)"
      by (simp add: c_def Math_min_def Math_max_def min_def max_def)
    then show ?thesis using close t by (simp split: if_splits)
  qed
  have code: "normalized_score rng s = Math_round c"
    by (simp add: normalized_score_def c_def v_def q_def a_def r js_sub_def js_div_def js_mul_def M_def)
  have "0 \<le> \<lfloor>100 * t + 1/2\<rfloor>" using t by simp
  moreover have "\<lfloor>100 * t + 1/2\<rfloor> \<le> 100" using t by (simp add: floor_le_iff)
  ultimately have "clamp 0 100 (Math_round (100 * t)) = Math_round (100 * t)"
    by (simp add: clamp_def Math_round_def)
  then have spec: "spec_normalized_score rng s = Math_round (100 * t)"
    by (simp add: spec_normalized_score_def r t_def M_def)
  show ?thesis unfolding code spec using c by (rule Math_round_close)
qed

lemma spec_normalized_score_low:
  assumes "range_min rng < range_max rng" "s \<le> range_min rng"
  shows "spec_normalized_score rng s = 0"
proof -
  have "100 * (s - range_min rng) / (range_max rng - range_min rng) \<le> 0"
    using assms by (simp add: divide_le_0_iff mult_le_0_iff)
  then have "\<lfloor>100 * (s - range_min rng) / (range_max rng - range_min rng) + 1/2\<rfloor> \<le> 0"
    by (simp add: floor_le_iff)
  then show ?thesis by (simp add: spec_normalized_score_def clamp_def Math_round_def)
qed

lemma spec_normalized_score_high:
  assumes "range_min rng < range_max rng" "range_max rng \<le> s"
  shows "spec_normalized_score rng s = 100"
proof -
  have "100 \<le> 100 * (s - range_min rng) / (range_max rng - range_min rng)"
    using assms by (simp add: le_divide_eq)
  then have "100 \<le> \<lfloor>100 * (s - range_min rng) / (range_max rng - range_min rng) + 1/2\<rfloor>"
    by (simp add: le_floor_iff)
  then show ?thesis by (simp add: spec_normalized_score_def clamp_def Math_round_def)
qed

lemma SCORE_RANGES_exact:
  "range_min (SCORE_RANGES src) = 0" "fl (range_max (SCORE_RANGES src)) = range_max (SCORE_RANGES src)"
  by (cases src; simp; code_simp)+

lemma normalized_score_close:
  "\<bar>normalized_score (SCORE_RANGES src) s - spec_normalized_score (SCORE_RANGES src) s\<bar> \<le> 1"
proof -
  consider "s \<le> 0" | "0 < s" "s < range_max (SCORE_RANGES src)" | "range_max (SCORE_RANGES src) \<le> s"
    by linarith
  then show ?thesis
  proof cases
    case 1
    then show ?thesis
      using normalized_score_low[OF SCORE_RANGES_ordered, of s src]
        spec_normalized_score_low[OF SCORE_RANGES_ordered, of s src]
      by (simp add: SCORE_RANGES_exact)
  next
    case 2
    then show ?thesis by (intro normalized_score_mid SCORE_RANGES_exact)
  next
    case 3
    then show ?thesis
      using normalized_score_high[OF SCORE_RANGES_ordered, of src s]
        spec_normalized_score_high[OF SCORE_RANGES_ordered, of src s]
      by simp
  qed
qed

section \<open>Facts about top-N selection\<close>

lemma by_score_desc_le: "by_score_desc x y \<le> 0 \<longleftrightarrow> - score x \<le> - score y"
  by (simp add: by_score_desc_def js_sub_def fl_sign)

lemma insert_by_score_desc:
  "insert_by by_score_desc x ys = insort_key (\<lambda>a. - score a) x ys"
  by (induction ys) (simp_all add: by_score_desc_le)

lemma Array_sort_by_score_desc:
  "Array_sort by_score_desc xs = sort_key (\<lambda>a. - score a) xs"
  by (induction xs) (simp_all add: Array_sort_def insert_by_score_desc sort_key_def)

lemma selectTopN_spec: "selectTopN xs k = spec_topK xs k"
  by (simp add: selectTopN_def spec_topK_def Array_sort_by_score_desc)

lemma selectTopN_length: "length (selectTopN xs k) = min k (length xs)"
  by (simp add: selectTopN_spec spec_topK_def)

lemma selectTopN_sorted: "sorted (map (\<lambda>a. - score a) (selectTopN xs k))"
  by (simp add: selectTopN_spec spec_topK_def take_map[symmetric] sorted_wrt_take del: take_map)

lemma Array_sort_stable:
  "filter (\<lambda>a. score a = s) (Array_sort by_score_desc xs) = filter (\<lambda>a. score a = s) xs"
proof -
  have "filter (\<lambda>a. - score a = - s) (sort_key (\<lambda>a. - score a) xs) = filter (\<lambda>a. - score a = - s) xs"
    by (rule sort_key_stable)
  then show ?thesis by (simp add: Array_sort_by_score_desc)
qed

lemma Array_sort_mset: "mset (Array_sort by_score_desc xs) = mset xs"
  by (simp add: Array_sort_by_score_desc)

lemma selectTopN_heap_result:
  assumes "r < next_ref h"
  shows "arrays (fst (selectTopN_heap h r k)) (snd (selectTopN_heap h r k)) = selectTopN (arrays h r) k"
    and "\<forall>r' < next_ref h. arrays (fst (selectTopN_heap h r k)) r' = arrays h r'"
    and "next_ref h < snd (selectTopN_heap h r k)"
  using assms by (simp_all add: selectTopN_heap_def alloc_def sort_in_place_def selectTopN_def Let_def)

section \<open>Claims about score normalisation and top-N selection\<close>

text \<open>
  C3, as stated: \<^verbatim>\<open>normalizeScores\<close> replaces each score by
  \<open>clamp(0, 100, round(100 * (rawScore - rangeMin) / (rangeMax - rangeMin)))\<close>. The code
  divides first and multiplies by 100 afterwards, in binary64: for a repository with 2875
  stars and the range (0, 5000) the quotient is the double below 0.575, the product is
  57.49999999999999 and \<^verbatim>\<open>Math.round\<close> gives 57, where the formula gives 58
  (\<^verbatim>\<open>Math.round(((2875 - 0) / (5000 - 0)) * 100)\<close> is 57 and
  \<^verbatim>\<open>Math.round(100 * (2875 - 0) / (5000 - 0))\<close> is 58).
\<close>

theorem normalizeScores_formula_counterexample:
  "normalizeScores [sample_article ''a'' 2875] Github
   \<noteq> spec_normalizeScores [sample_article ''a'' 2875] Github"
  using normalized_score_2875
  by (simp add: normalizeScores_def spec_normalizeScores_def sample_article_def)

text \<open>
  C3, amended: \<^verbatim>\<open>normalizeScores\<close> returns the same list with each article's score
  replaced by \<open>round(clamp(0, 100, v))\<close>, where \<open>v\<close> is
  \<open>((rawScore - rangeMin) / (rangeMax - rangeMin)) * 100\<close> computed in binary64 in that order.
  Every other field is kept. The new score is a whole number in [0, 100], within 1 of the
  formula of the specification; a raw score at or below the range minimum gives 0, one at or
  above the range maximum gives 100, and raw scores [0, 250, 600] under (0, 500) give
  [0, 50, 100].
\<close>

theorem normalizeScores_double_rounding:
  "map (\<lambda>a. a\<lparr>score := 0\<rparr>) (normalizeScores arts src) = map (\<lambda>a. a\<lparr>score := 0\<rparr>) arts
   \<and> map score (normalizeScores arts src)
       = map (\<lambda>a. normalized_score (SCORE_RANGES src) (score a)) arts
   \<and> (\<forall>i < length arts.
         score (normalizeScores arts src ! i) \<in> \<int>
         \<and> 0 \<le> score (normalizeScores arts src ! i)
         \<and> score (normalizeScores arts src ! i) \<le> 100
         \<and> \<bar>score (normalizeScores arts src ! i)
              - score (spec_normalizeScores arts src ! i)\<bar> \<le> 1
         \<and> (score (arts ! i) \<le> range_min (SCORE_RANGES src)
              \<longrightarrow> score (normalizeScores arts src ! i) = 0)
         \<and> (range_max (SCORE_RANGES src) \<le> score (arts ! i)
              \<longrightarrow> score (normalizeScores arts src ! i) = 100))
   \<and> map score (normalizeScores [x\<lparr>score := 0\<rparr>, x\<lparr>score := 250\<rparr>, x\<lparr>score := 600\<rparr>] Hackernews)
       = [0, 50, 100]"
proof (intro conjI allI impI)
  show "map (\<lambda>a. a\<lparr>score := 0\<rparr>) (normalizeScores arts src) = map (\<lambda>a. a\<lparr>score := 0\<rparr>) arts"
    by (rule normalizeScores_keeps_fields)
  show "map score (normalizeScores arts src)
        = map (\<lambda>a. normalized_score (SCORE_RANGES src) (score a)) arts"
    by (rule normalizeScores_scores)
  show "map score (normalizeScores [x\<lparr>score := 0\<rparr>, x\<lparr>score := 250\<rparr>, x\<lparr>score := 600\<rparr>] Hackernews)
        = [0, 50, 100]"
    using normalized_score_scenario by (simp add: normalizeScores_scores)
next
  fix i assume i: "i < length arts"
  have code: "score (normalizeScores arts src ! i) = normalized_score (SCORE_RANGES src) (score (arts ! i))"
    using i by (simp add: normalizeScores_def Let_def)
  have spec: "score (spec_normalizeScores arts src ! i)
              = spec_normalized_score (SCORE_RANGES src) (score (arts ! i))"
    using i by (simp add: spec_normalizeScores_def)
  show "score (normalizeScores arts src ! i) \<in> \<int>"
    unfolding code by (rule normalized_score_int)
  show "0 \<le> score (normalizeScores arts src ! i)"
    unfolding code using normalized_score_range by blast
  show "score (normalizeScores arts src ! i) \<le> 100"
    unfolding code using normalized_score_range by blast
  show "\<bar>score (normalizeScores arts src ! i) - score (spec_normalizeScores arts src ! i)\<bar> \<le> 1"
    unfolding code spec by (rule normalized_score_close)
  show "score (normalizeScores arts src ! i) = 0"
    if "score (arts ! i) \<le> range_min (SCORE_RANGES src)"
    unfolding code using SCORE_RANGES_ordered that by (rule normalized_score_low)
  show "score (normalizeScores arts src ! i) = 100"
    if "range_max (SCORE_RANGES src) \<le> score (arts ! i)"
    unfolding code using SCORE_RANGES_ordered that by (rule normalized_score_high)
qed

theorem normalizeScores_double_rounding_witness:
  "(1::nat) < length [sample_article ''a'' 0, sample_article ''b'' 5000]
   \<and> score ([sample_article ''a'' 0, sample_article ''b'' 5000] ! 0) \<le> range_min (SCORE_RANGES Github)
   \<and> range_max (SCORE_RANGES Github) \<le> score ([sample_article ''a'' 0, sample_article ''b'' 5000] ! 1)
   \<and> map score (normalizeScores [sample_article ''a'' 0, sample_article ''b'' 5000] Github) = [0, 100]"
proof -
  let ?arts = "[sample_article ''a'' 0, sample_article ''b'' 5000]"
  have len: "(0::nat) < length ?arts" "(1::nat) < length ?arts" by simp_all
  have lo: "score (?arts ! 0) \<le> range_min (SCORE_RANGES Github)"
    by (simp add: sample_article_def)
  have hi: "range_max (SCORE_RANGES Github) \<le> score (?arts ! 1)"
    by (simp add: sample_article_def)
  note t = normalizeScores_double_rounding[of ?arts Github "sample_article ''a'' 0"]
  from t len(1) lo have z: "score (normalizeScores ?arts Github ! 0) = 0" by blast
  from t len(2) hi have h: "score (normalizeScores ?arts Github ! 1) = 100" by blast
  have n0: "score (normalizeScores ?arts Github ! 0) = normalized_score (SCORE_RANGES Github) 0"
    and n1: "score (normalizeScores ?arts Github ! 1) = normalized_score (SCORE_RANGES Github) 5000"
    by (simp_all add: normalizeScores_def Let_def sample_article_def)
  have "map score (normalizeScores ?arts Github)
        = [normalized_score (SCORE_RANGES Github) 0, normalized_score (SCORE_RANGES Github) 5000]"
    by (simp add: normalizeScores_def Let_def sample_article_def)
  with z h n0 n1 len lo hi show ?thesis by simp
qed

text \<open>
  C4: \<^verbatim>\<open>selectTopN\<close> is the stable descending sort by score followed by the first K
  elements. It is a function of the list and K alone; it returns min(K, length) articles, in
  descending order of score; articles of equal score keep their relative order; the sort
  only permutes. On the store of arrays the input array is left as it was, as is every array
  that existed before the call, and the result is a new array.
\<close>

theorem selectTopN_stable_topK:
  "selectTopN xs k = spec_topK xs k
   \<and> length (selectTopN xs k) = min k (length xs)
   \<and> sorted (map (\<lambda>a. - score a) (selectTopN xs k))
   \<and> selectTopN xs k = take k (Array_sort by_score_desc xs)
   \<and> filter (\<lambda>a. score a = s) (Array_sort by_score_desc xs) = filter (\<lambda>a. score a = s) xs
   \<and> mset (Array_sort by_score_desc xs) = mset xs
   \<and> (r < next_ref h \<longrightarrow>
        arrays (fst (selectTopN_heap h r k)) (snd (selectTopN_heap h r k))
          = selectTopN (arrays h r) k
        \<and> (\<forall>r' < next_ref h. arrays (fst (selectTopN_heap h r k)) r' = arrays h r')
        \<and> next_ref h < snd (selectTopN_heap h r k))"
  using selectTopN_spec selectTopN_length selectTopN_sorted Array_sort_stable Array_sort_mset
    selectTopN_heap_result
  by (simp add: selectTopN_def)

theorem selectTopN_stable_topK_witness:
  "(0::nat) < next_ref sample_heap
   \<and> map title (arrays (fst (selectTopN_heap sample_heap 0 3)) (snd (selectTopN_heap sample_heap 0 3)))
       = [''b'', ''d'', ''a'']
   \<and> map title (arrays (fst (selectTopN_heap sample_heap 0 3)) 0) = [''a'', ''b'', ''c'', ''d'']"
proof -
  have r: "(0::nat) < next_ref sample_heap" by (simp add: sample_heap_def)
  note t = selectTopN_stable_topK[of "arrays sample_heap 0" 3 10 0 sample_heap]
  from t r have res: "arrays (fst (selectTopN_heap sample_heap 0 3)) (snd (selectTopN_heap sample_heap 0 3))
      = selectTopN (arrays sample_heap 0) 3"
    and keep: "arrays (fst (selectTopN_heap sample_heap 0 3)) 0 = arrays sample_heap 0"
    by blast+
  have "map title (selectTopN (arrays sample_heap 0) 3) = [''b'', ''d'', ''a'']"
    by code_simp
  moreover have "map title (arrays sample_heap 0) = [''a'', ''b'', ''c'', ''d'']"
    by (simp add: sample_heap_def sample_article_def)
  ultimately show ?thesis using r res keep by simp
qed


section \<open>Facts about the retry loop\<close>

declare fetchWithRetry_from.simps [simp del]

lemma fetches_simps:
  "fetches [] = 0"
  "fetches (HttpFetch u a # tr) = Suc (fetches tr)"
  "fetches (Sleep d # tr) = fetches tr"
  "fetches (RedisGet k # tr) = fetches tr"
  "fetches (RedisSet k v t # tr) = fetches tr"
  "fetches (tr @ tr') = fetches tr + fetches tr'"
  by (simp_all add: fetches_def)

lemma rate_limited_not_ok: "st = 403 \<or> st = 429 \<Longrightarrow> \<not> res_ok st"
  by (auto simp: res_ok_def)

lemma fetchWithRetry_from_retry:
  assumes "k < MAX_RETRIES" "responses k = Response st ra body js" "st = 403 \<or> st = 429"
  shows "fetchWithRetry_from Number u auth responses k
         = (fst (fetchWithRetry_from Number u auth responses (Suc k)),
            HttpFetch u auth # Sleep (retry_delay Number ra k)
            # snd (fetchWithRetry_from Number u auth responses (Suc k)))"
  using assms rate_limited_not_ok[OF assms(3)]
  by (subst fetchWithRetry_from.simps) (simp split: prod.splits)

lemma fetchWithRetry_from_other_status:
  assumes "k \<le> MAX_RETRIES" "responses k = Response st ra body js" "\<not> res_ok st"
    and "(st \<noteq> 403 \<and> st \<noteq> 429) \<or> k = MAX_RETRIES"
  shows "fetchWithRetry_from Number u auth responses k = (Threw (HttpStatus st), [HttpFetch u auth])"
  using assms by (subst fetchWithRetry_from.simps) auto

lemma fetchWithRetry_from_ok:
  assumes "k \<le> MAX_RETRIES" "responses k = Response st ra body js" "res_ok st"
  shows "fetchWithRetry_from Number u auth responses k
         = ((case js of Some d \<Rightarrow> Returned d | None \<Rightarrow> Threw BodyError), [HttpFetch u auth])"
  using assms by (subst fetchWithRetry_from.simps) (simp split: option.splits)

lemma fetchWithRetry_from_network_error:
  assumes "k \<le> MAX_RETRIES" "responses k = NetworkError e"
  shows "fetchWithRetry_from Number u auth responses k
         = (Threw (NetworkFailure e), [HttpFetch u auth])"
  using assms by (subst fetchWithRetry_from.simps) simp

lemma fetchWithRetry_from_fetches:
  "fetches (snd (fetchWithRetry_from Number u auth responses k)) \<le> Suc MAX_RETRIES - k"
proof (induction Number u auth responses k rule: fetchWithRetry_from.induct)
  case (1 Number u auth responses attempt)
  show ?case
  proof (cases "attempt \<le> MAX_RETRIES")
    case False
    then show ?thesis by (subst fetchWithRetry_from.simps) (simp add: fetches_simps)
  next
    case le: True
    show ?thesis
    proof (cases "responses attempt")
      case (NetworkError e)
      with le show ?thesis by (subst fetchWithRetry_from.simps) (simp add: fetches_simps)
    next
      case (Response st ra body js)
      show ?thesis
      proof (cases "\<not> res_ok st \<and> (st = 403 \<or> st = 429) \<and> attempt < MAX_RETRIES")
        case True
        then have ih: "fetches (snd (fetchWithRetry_from Number u auth responses (attempt + 1)))
                       \<le> Suc MAX_RETRIES - (attempt + 1)"
          using "1.IH"[OF le Response] by blast
        have "fetches (snd (fetchWithRetry_from Number u auth responses attempt))
              = Suc (fetches (snd (fetchWithRetry_from Number u auth responses (Suc attempt))))"
          using True Response
          by (simp add: fetchWithRetry_from_retry[of attempt responses st ra body js] fetches_simps)
        moreover have "Suc MAX_RETRIES - attempt = Suc (MAX_RETRIES - attempt)"
          using True by (simp add: Suc_diff_le)
        ultimately show ?thesis using ih by simp
      next
        case False
        with le Response show ?thesis
          by (subst fetchWithRetry_from.simps) (auto simp: fetches_simps split: option.splits)
      qed
    qed
  qed
qed

lemma fetchWithRetry_at_most_4:
  "fetches (snd (fetchWithRetry Number u auth responses)) \<le> 4"
  using fetchWithRetry_from_fetches[of Number u auth responses 0]
  by (simp add: fetchWithRetry_def MAX_RETRIES_def)

lemma fetchWithRetry_from_retries_only_on_rate_limit:
  assumes "1 < fetches (snd (fetchWithRetry_from Number u auth responses k))"
  shows "\<exists>st ra body js. responses k = Response st ra body js \<and> (st = 403 \<or> st = 429)
           \<and> \<not> res_ok st \<and> k < MAX_RETRIES"
proof (cases "k \<le> MAX_RETRIES")
  case False
  with assms show ?thesis by (subst (asm) fetchWithRetry_from.simps) (simp add: fetches_simps)
next
  case le: True
  show ?thesis
  proof (cases "responses k")
    case (NetworkError e)
    with assms le show ?thesis
      by (simp add: fetchWithRetry_from_network_error fetches_simps)
  next
    case (Response st ra body js)
    show ?thesis
    proof (cases "res_ok st")
      case True
      with assms le Response show ?thesis by (simp add: fetchWithRetry_from_ok fetches_simps)
    next
      case nok: False
      show ?thesis
      proof (cases "(st \<noteq> 403 \<and> st \<noteq> 429) \<or> k = MAX_RETRIES")
        case True
        with assms le Response nok show ?thesis
          by (simp add: fetchWithRetry_from_other_status fetches_simps)
      next
        case False
        with le Response nok show ?thesis by auto
      qed
    qed
  qed
qed

lemma backoff_delays:
  "retry_delay Number None 0 = Some 1000"
  "retry_delay Number None 1 = Some 2000"
  "retry_delay Number None 2 = Some 4000"
  "retry_delay Number (Some []) 0 = Some 1000"
  "retry_delay Number (Some []) 1 = Some 2000"
  "retry_delay Number (Some []) 2 = Some 4000"
  unfolding retry_delay_def truthy.simps BASE_DELAY_MS_def by simp_all code_simp+

lemma backoff_delay_Suc_0:
  "retry_delay Number None (Suc 0) = Some 2000"
  "retry_delay Number (Some []) (Suc 0) = Some 2000"
  using backoff_delays(2,5)[of Number] by simp_all

lemma backoff_doubles:
  assumes "\<not> truthy ra" "k < MAX_RETRIES"
  shows "retry_delay Number ra k = Some (1000 * 2 ^ k)"
proof -
  have ra: "ra = None \<or> ra = Some []" using assms(1) by (cases ra) simp_all
  have "k = 0 \<or> k = 1 \<or> k = 2" using assms(2) by (auto simp: MAX_RETRIES_def)
  with ra show ?thesis using backoff_delays[of Number] by (auto simp del: One_nat_def)
qed

lemma hint_delay:
  assumes "truthy ra"
  shows "\<exists>s. ra = Some s \<and> retry_delay Number ra k = map_option (\<lambda>v. js_mul v 1000) (Number s)"
  using assms by (cases ra) (simp_all add: retry_delay_def)

lemma always_rate_limited:
  assumes "\<forall>k \<le> MAX_RETRIES. \<exists>body js. responses k = Response 429 None body js"
  shows "fetchWithRetry Number u auth responses
         = (Threw (HttpStatus 429),
            [HttpFetch u auth, Sleep (Some 1000), HttpFetch u auth, Sleep (Some 2000),
             HttpFetch u auth, Sleep (Some 4000), HttpFetch u auth])"
proof -
  have "\<exists>body js. responses 0 = Response 429 None body js"
    "\<exists>body js. responses 1 = Response 429 None body js"
    "\<exists>body js. responses 2 = Response 429 None body js"
    "\<exists>body js. responses 3 = Response 429 None body js"
    using assms by (simp_all add: MAX_RETRIES_def)
  then obtain t0 j0 t1 j1 t2 j2 t3 j3 where r:
    "responses 0 = Response 429 None t0 j0" "responses 1 = Response 429 None t1 j1"
    "responses 2 = Response 429 None t2 j2" "responses 3 = Response 429 None t3 j3"
    by blast
  have 3: "fetchWithRetry_from Number u auth responses 3 = (Threw (HttpStatus 429), [HttpFetch u auth])"
    using r(4) by (intro fetchWithRetry_from_other_status[of 3 responses 429 None t3 j3])
      (simp_all add: MAX_RETRIES_def res_ok_def)
  have 2: "fetchWithRetry_from Number u auth responses 2
           = (Threw (HttpStatus 429), [HttpFetch u auth, Sleep (Some 4000), HttpFetch u auth])"
    using fetchWithRetry_from_retry[of 2 responses 429 None t2 j2 Number u auth] r(3) 3
    by (simp add: MAX_RETRIES_def backoff_delays numeral_3_eq_3)
  have 1: "fetchWithRetry_from Number u auth responses 1
           = (Threw (HttpStatus 429), [HttpFetch u auth, Sleep (Some 2000), HttpFetch u auth,
                Sleep (Some 4000), HttpFetch u auth])"
    using fetchWithRetry_from_retry[of 1 responses 429 None t1 j1 Number u auth] r(2) 2
    by (simp add: MAX_RETRIES_def backoff_delays backoff_delay_Suc_0 numeral_2_eq_2)
  show ?thesis
    using fetchWithRetry_from_retry[of 0 responses 429 None t0 j0 Number u auth] r(1) 1
    by (simp add: MAX_RETRIES_def backoff_delays fetchWithRetry_def)
qed

section \<open>Facts about the fetchers\<close>

lemma cacheGet_absent:
  assumes "\<not> rds \<or> reply = Miss"
  shows "cacheGet rds key reply = (Returned None, if rds then [RedisGet key] else [])"
  using assms by (auto simp: cacheGet_def)

lemma fetchGitHubArticles_propagates_cache_failure:
  assumes "redis c" "first_read c = Fails m"
  shows "fetchGitHubArticles Number c d responses
         = (Threw (CacheError m), [RedisGet ''source:github''])"
  using assms by (simp add: fetchGitHubArticles_def cacheGet_def)

lemma fetchGitHubPRs_try_returns:
  "\<exists>arts. fst (fetchGitHubPRs_try Number c token responses) = Returned arts"
  by (simp add: fetchGitHubPRs_try_def Let_def)

lemma fetchGitHubPRs_ignores_second_read:
  "fetchGitHubPRs Number (c\<lparr>second_read := r\<rparr>) token responses
   = fetchGitHubPRs Number c token responses"
  by (simp add: fetchGitHubPRs_def fetchGitHubPRs_try_def try_catch_def Let_def
           split: prod.splits outcome.splits option.splits)

lemma fetchGitHubArticles_fallback:
  assumes "\<not> redis c \<or> first_read c = Miss"
    and "fst (fetchWithRetry Number (buildSearchUrl d) None responses) = Threw err"
  shows "fst (fetchGitHubArticles Number c d responses)
         = (if \<not> redis c then Returned []
            else case second_read c of
                   Hit prior \<Rightarrow> Returned prior
                 | Miss \<Rightarrow> Returned []
                 | Fails e \<Rightarrow> Threw (CacheError e))"
  using assms
  by (auto simp: fetchGitHubArticles_def cacheGet_def try_catch_def stale_or_empty_def
           split: prod.splits outcome.splits option.splits cache_reply.splits)

lemma missing_credential_youtube:
  assumes "\<not> truthy apiKey" "\<not> redis c \<or> first_read c = Miss"
  shows "fetchYouTubeArticles mapVideos c apiKey resp
         = (Returned [], if redis c then [RedisGet ''source:youtube''] else [])"
  using assms(1) cacheGet_absent[OF assms(2), of "''source:youtube''"]
  by (cases apiKey) (simp_all add: fetchYouTubeArticles_def)

lemma missing_credential_producthunt:
  assumes "\<not> truthy token" "\<not> redis c \<or> first_read c = Miss"
  shows "fetchProductHuntArticles c token resp
         = (Returned [], if redis c then [RedisGet ''source:producthunt''] else [])"
  using assms(1) cacheGet_absent[OF assms(2), of "''source:producthunt''"]
  by (cases token) (simp_all add: fetchProductHuntArticles_def)

section \<open>Claims about the fetchers\<close>

text \<open>
  C7: the retry loop of \<^verbatim>\<open>fetchWithRetry\<close> calls \<^verbatim>\<open>fetch\<close> at most 4 times. It goes on to
  a further attempt only after a 403 or 429 with attempts left, and then sleeps first: the
  \<^verbatim>\<open>Retry-After\<close> value times 1000 when the header has one (a non-empty string), else
  1000, 2000, 4000 ms for attempts 0, 1, 2. Any other non-success status throws at once with
  no further call, and so does a non-success status at the last attempt.
\<close>

theorem fetchWithRetry_bounded_retry:
  "fetches (snd (fetchWithRetry Number u auth responses)) \<le> 4
   \<and> (1 < fetches (snd (fetchWithRetry_from Number u auth responses k))
        \<longrightarrow> (\<exists>st ra body js. responses k = Response st ra body js \<and> (st = 403 \<or> st = 429)
               \<and> \<not> res_ok st \<and> k < MAX_RETRIES))
   \<and> (k < MAX_RETRIES \<and> responses k = Response st ra body js \<and> (st = 403 \<or> st = 429)
        \<longrightarrow> fetchWithRetry_from Number u auth responses k
            = (fst (fetchWithRetry_from Number u auth responses (Suc k)),
               HttpFetch u auth # Sleep (retry_delay Number ra k)
               # snd (fetchWithRetry_from Number u auth responses (Suc k))))
   \<and> (truthy ra
        \<longrightarrow> (\<exists>s. ra = Some s
               \<and> retry_delay Number ra k = map_option (\<lambda>v. js_mul v 1000) (Number s)))
   \<and> (\<not> truthy ra \<and> k < MAX_RETRIES \<longrightarrow> retry_delay Number ra k = Some (1000 * 2 ^ k))
   \<and> (k \<le> MAX_RETRIES \<and> responses k = Response st ra body js \<and> \<not> res_ok st
        \<and> ((st \<noteq> 403 \<and> st \<noteq> 429) \<or> k = MAX_RETRIES)
        \<longrightarrow> fetchWithRetry_from Number u auth responses k
            = (Threw (HttpStatus st), [HttpFetch u auth]))
   \<and> ((\<forall>i \<le> MAX_RETRIES. \<exists>body js. responses i = Response 429 None body js)
        \<longrightarrow> fetchWithRetry Number u auth responses
            = (Threw (HttpStatus 429),
               [HttpFetch u auth, Sleep (Some 1000), HttpFetch u auth, Sleep (Some 2000),
                HttpFetch u auth, Sleep (Some 4000), HttpFetch u auth]))"
  using fetchWithRetry_at_most_4[of Number u auth responses]
    fetchWithRetry_from_retries_only_on_rate_limit[of Number u auth responses k]
    fetchWithRetry_from_retry[of k responses st ra body js Number u auth]
    hint_delay[of ra Number k] backoff_doubles[of ra k Number]
    fetchWithRetry_from_other_status[of k responses st ra body js Number u auth]
    always_rate_limited[of responses Number u auth]
  by blast

theorem fetchWithRetry_bounded_retry_witness:
  "fetchWithRetry sample_Number ''u'' None sample_responses
   = (Threw (HttpStatus 500),
      [HttpFetch ''u'' None, Sleep (Some 7000), HttpFetch ''u'' None, Sleep (Some 2000),
       HttpFetch ''u'' None])
   \<and> fetches (snd (fetchWithRetry sample_Number ''u'' None sample_responses)) \<le> 4
   \<and> fetchWithRetry sample_Number ''u'' None rate_limited
     = (Threw (HttpStatus 429),
        [HttpFetch ''u'' None, Sleep (Some 1000), HttpFetch ''u'' None, Sleep (Some 2000),
         HttpFetch ''u'' None, Sleep (Some 4000), HttpFetch ''u'' None])"
proof -
  have r: "sample_responses 0 = Response 429 (Some ''7'') [] None"
    "sample_responses 1 = Response 403 None [] None"
    "sample_responses 2 = Response 500 None [] None"
    by (simp_all add: sample_responses_def)
  have k: "(0::nat) < MAX_RETRIES" "(1::nat) < MAX_RETRIES" "(2::nat) \<le> MAX_RETRIES"
    by (simp_all add: MAX_RETRIES_def)
  have h: "truthy (Some ''7'')" "\<not> truthy None" "\<not> res_ok 500" "(500::nat) \<noteq> 403 \<and> (500::nat) \<noteq> 429"
    by (simp_all add: res_ok_def)
  note t0 = fetchWithRetry_bounded_retry[where Number = sample_Number and u = "''u''" and auth = None
      and responses = sample_responses and k = 0 and st = 429 and ra = "Some ''7''" and body = "[]"
      and js = None]
  note t1 = fetchWithRetry_bounded_retry[where Number = sample_Number and u = "''u''" and auth = None
      and responses = sample_responses and k = 1 and st = 403 and ra = None and body = "[]"
      and js = None]
  note t2 = fetchWithRetry_bounded_retry[where Number = sample_Number and u = "''u''" and auth = None
      and responses = sample_responses and k = 2 and st = 500 and ra = None and body = "[]"
      and js = None]
  from t2 r(3) k(3) h(3,4)
  have s2: "fetchWithRetry_from sample_Number ''u'' None sample_responses 2
            = (Threw (HttpStatus 500), [HttpFetch ''u'' None])"
    by blast
  from t1 h(2) k(2) have d1: "retry_delay sample_Number None 1 = Some (1000 * 2 ^ 1)" by blast
  from t1 r(2) k(2)
  have "fetchWithRetry_from sample_Number ''u'' None sample_responses 1
        = (fst (fetchWithRetry_from sample_Number ''u'' None sample_responses (Suc 1)),
           HttpFetch ''u'' None # Sleep (retry_delay sample_Number None 1)
           # snd (fetchWithRetry_from sample_Number ''u'' None sample_responses (Suc 1)))"
    by blast
  with s2 d1
  have s1: "fetchWithRetry_from sample_Number ''u'' None sample_responses 1
            = (Threw (HttpStatus 500), [HttpFetch ''u'' None, Sleep (Some 2000), HttpFetch ''u'' None])"
    by (simp add: numeral_2_eq_2)
  from t0 h(1) obtain s where "Some ''7'' = Some s"
    "retry_delay sample_Number (Some ''7'') 0 = map_option (\<lambda>v. js_mul v 1000) (sample_Number s)"
    by blast
  then have "retry_delay sample_Number (Some ''7'') 0 = Some (js_mul 7 1000)"
    by (simp add: sample_Number_def)
  moreover have "js_mul 7 1000 = 7000" by code_simp
  ultimately have d0: "retry_delay sample_Number (Some ''7'') 0 = Some 7000" by simp
  from t0 r(1) k(1)
  have "fetchWithRetry_from sample_Number ''u'' None sample_responses 0
        = (fst (fetchWithRetry_from sample_Number ''u'' None sample_responses (Suc 0)),
           HttpFetch ''u'' None # Sleep (retry_delay sample_Number (Some ''7'') 0)
           # snd (fetchWithRetry_from sample_Number ''u'' None sample_responses (Suc 0)))"
    by blast
  with s1 d0
  have "fetchWithRetry sample_Number ''u'' None sample_responses
        = (Threw (HttpStatus 500),
           [HttpFetch ''u'' None, Sleep (Some 7000), HttpFetch ''u'' None, Sleep (Some 2000),
            HttpFetch ''u'' None])"
    by (simp add: fetchWithRetry_def)
  moreover from t0 have "fetches (snd (fetchWithRetry sample_Number ''u'' None sample_responses)) \<le> 4"
    by blast
  moreover have "fetchWithRetry sample_Number ''u'' None rate_limited
        = (Threw (HttpStatus 429),
           [HttpFetch ''u'' None, Sleep (Some 1000), HttpFetch ''u'' None, Sleep (Some 2000),
            HttpFetch ''u'' None, Sleep (Some 4000), HttpFetch ''u'' None])"
  proof -
    have "\<forall>i \<le> MAX_RETRIES. \<exists>body js. rate_limited i = Response 429 None body js"
      by (simp add: rate_limited_def)
    with fetchWithRetry_bounded_retry[where Number = sample_Number and u = "''u''" and auth = None
        and responses = rate_limited]
    show ?thesis by blast
  qed
  ultimately show ?thesis by blast
qed

text \<open>
  C5, at its failing input: Redis is configured and the request of the first
  \<^verbatim>\<open>cacheGet\<close> fails. The read stands outside the \<^verbatim>\<open>try\<close> block, so
  \<^verbatim>\<open>fetchGitHubArticles\<close> rejects. The same happens when the upstream call has failed and
  the read in the \<^verbatim>\<open>catch\<close> block fails.
\<close>

theorem fetchGitHubArticles_rejects_on_cache_failure:
  "fst (fetchGitHubArticles no_number cache_down ''2026-01-01'' server_error)
     = Threw (CacheError ''fetch failed'')
   \<and> fst (fetchGitHubArticles no_number cache_down_later ''2026-01-01'' server_error)
     = Threw (CacheError ''fetch failed'')"
  by code_simp

text \<open>
  C6, at its failing input: the first read of \<^verbatim>\<open>fetchGitHubPRs\<close> is absent, both
  repositories answer 500, and the cache holds a prior list by the time of a second read.
  No second read is made: \<^verbatim>\<open>Promise.allSettled\<close> keeps both rejections, nothing is thrown
  inside \<^verbatim>\<open>try\<close>, and the empty list is returned. \<^verbatim>\<open>fetchGitHubArticles\<close>, in the same
  situation, returns the prior list.
\<close>

theorem fetchGitHubPRs_skips_stale_fallback:
  "fetchGitHubPRs no_number cache_refilled None (\<lambda>repo. server_error)
     = (Returned [],
        [RedisGet ''source:github_prs'',
         HttpFetch (''https://api.github.com/repos/facebook/react''
                    @ ''/pulls?state=all&sort=updated&direction=desc&per_page=10'') None,
         HttpFetch (''https://api.github.com/repos/vercel/next.js''
                    @ ''/pulls?state=all&sort=updated&direction=desc&per_page=10'') None])
   \<and> second_read cache_refilled = Hit [sample_article ''prior'' 1]
   \<and> fst (fetchGitHubArticles no_number cache_refilled ''2026-01-01'' server_error)
     = Returned [sample_article ''prior'' 1]"
  by code_simp

text \<open>
  C8: \<^verbatim>\<open>fetchYouTubeArticles\<close> and \<^verbatim>\<open>fetchProductHuntArticles\<close>, the two article fetchers
  that need a credential, return the empty list when the credential is unset (or empty) and
  the first cache read finds nothing. Nothing is thrown, and the only request made is the
  cache read: no call of \<^verbatim>\<open>fetch\<close>.
\<close>

theorem missing_credential_returns_empty:
  assumes "\<not> truthy credential" and "\<not> redis c \<or> first_read c = Miss"
  shows "fetchYouTubeArticles mapVideos c credential resp
           = (Returned [], if redis c then [RedisGet ''source:youtube''] else [])
         \<and> fetches (snd (fetchYouTubeArticles mapVideos c credential resp)) = 0
         \<and> fetchProductHuntArticles c credential resp'
           = (Returned [], if redis c then [RedisGet ''source:producthunt''] else [])
         \<and> fetches (snd (fetchProductHuntArticles c credential resp')) = 0"
  using missing_credential_youtube[OF assms, of mapVideos resp]
    missing_credential_producthunt[OF assms, of resp']
  by (simp add: fetches_simps)

theorem missing_credential_returns_empty_witness:
  "\<not> truthy None \<and> first_read cache_empty = Miss
   \<and> fetchYouTubeArticles (\<lambda>vids. vids) cache_empty None (NetworkError ''unreachable'')
       = (Returned [], [RedisGet ''source:youtube''])
   \<and> fetchProductHuntArticles cache_empty None (NetworkError ''unreachable'')
       = (Returned [], [RedisGet ''source:producthunt''])"
proof -
  have a: "\<not> truthy None" by simp
  have b: "\<not> redis cache_empty \<or> first_read cache_empty = Miss" by (simp add: cache_empty_def)
  have c: "redis cache_empty" "first_read cache_empty = Miss" by (simp_all add: cache_empty_def)
  from missing_credential_returns_empty[OF a b, of "\<lambda>vids. vids" "NetworkError ''unreachable''"
      "NetworkError ''unreachable''"] a b c
  show ?thesis by simp
qed

section \<open>Facts about the collection route\<close>

lemma take1_filter_Nil: "take 1 (filter P xs) = [] \<longleftrightarrow> filter P xs = []"
  by (cases "filter P xs") simp_all

lemma filter_Cons_member: "filter P xs = x # rest \<Longrightarrow> x \<in> set xs \<and> P x"
proof -
  assume "filter P xs = x # rest"
  then have "x \<in> set (filter P xs)" by simp
  then show ?thesis by simp
qed

lemma collect_not_401: "fst (collect e w) \<noteq> Unauthorized"
  by (simp add: collect_def Let_def split: option.splits list.splits)

lemma GET_401_iff:
  "fst (GET e w) = Unauthorized
   \<longleftrightarrow> (\<exists>s. CRON_SECRET e = Some s \<and> s \<noteq> [] \<and> authorization e \<noteq> Some (''Bearer '' @ s))"
  using collect_not_401[of e w] by (simp add: GET_def split: option.splits)

lemma GET_passes_guard:
  "\<not> (\<exists>s. CRON_SECRET e = Some s \<and> s \<noteq> [] \<and> authorization e \<noteq> Some (''Bearer '' @ s))
   \<Longrightarrow> GET e w = collect e w"
  by (auto simp: GET_def split: option.splits)

lemma GET_world: "snd (GET e w) = w \<or> snd (GET e w) = snd (collect e w)"
  by (simp add: GET_def split: option.splits)

lemma collect_skipped:
  assumes "select_fails (faults e) = None"
    and "filter (same_slot (determineEditionType (tokyoHour e)) (today e)) (editions (database w)) = x # xs"
  shows "collect e w = (Skipped (edition_id x), w)"
  using assms by (simp add: collect_def Let_def)

lemma collect_select_failed:
  assumes "select_fails (faults e) = Some msg"
  shows "collect e w = (Failed msg [] (end_ms e - start_ms e), w)"
  using assms by (simp add: collect_def Let_def)

lemma collect_slot_taken:
  assumes "filter (same_slot (determineEditionType (tokyoHour e)) (today e)) (editions (database w)) \<noteq> []"
  shows "snd (collect e w) = w"
proof (cases "select_fails (faults e)")
  case None
  obtain x xs where "filter (same_slot (determineEditionType (tokyoHour e)) (today e)) (editions (database w)) = x # xs"
    using assms by (cases "filter (same_slot (determineEditionType (tokyoHour e)) (today e)) (editions (database w))") auto
  with None show ?thesis by (simp add: collect_skipped)
next
  case (Some msg)
  then show ?thesis by (simp add: collect_select_failed)
qed

lemma publish_slot: "same_slot ty dt (publish eid t r) = same_slot ty dt r"
  by (simp add: publish_def same_slot_def)

lemma publish_key: "edition_type (publish eid t r) = edition_type r" "edition_date (publish eid t r) = edition_date r"
  by (simp_all add: publish_def)

lemma collect_editions:
  "map (\<lambda>r. (edition_type r, edition_date r)) (editions (database (snd (collect e w))))
   = map (\<lambda>r. (edition_type r, edition_date r)) (editions (database w))
     @ (if select_fails (faults e) = None
           \<and> filter (same_slot (determineEditionType (tokyoHour e)) (today e)) (editions (database w)) = []
           \<and> insert_edition_fails (faults e) = None
        then [(determineEditionType (tokyoHour e), today e)] else [])"
  by (simp add: collect_def Let_def take1_filter_Nil publish_key comp_def
           split: option.splits list.splits)


lemma slot_free_iff:
  "filter (same_slot ty dt) rows = []
   \<longleftrightarrow> (ty, dt) \<notin> set (map (\<lambda>r. (edition_type r, edition_date r)) rows)"
  by (auto simp: filter_empty_conv same_slot_def)

lemma collect_keeps_slot_unique:
  assumes "slot_unique (database w)"
  shows "slot_unique (database (snd (collect e w)))"
  using assms unfolding slot_unique_def collect_editions
  by (auto simp: slot_free_iff)

lemma GET_keeps_slot_unique:
  assumes "slot_unique (database w)"
  shows "slot_unique (database (snd (GET e w)))"
  using GET_world[of e w] assms collect_keeps_slot_unique[OF assms, of e] by auto

lemma filter_publish:
  "filter (same_slot ty dt) (map (publish eid t) rows) = map (publish eid t) (filter (same_slot ty dt) rows)"
  by (induction rows) (simp_all add: publish_slot)

lemma collect_new_edition:
  assumes "select_fails (faults e) = None" "insert_edition_fails (faults e) = None"
    and "filter (same_slot (determineEditionType (tokyoHour e)) (today e)) (editions (database w)) = []"
  shows "\<exists>r. filter (same_slot (determineEditionType (tokyoHour e)) (today e))
                (editions (database (snd (collect e w)))) = [r]
             \<and> edition_id r = next_uuid (database w)"
  using assms
  by (simp add: collect_def Let_def filter_publish split: option.splits)
     (auto simp: publish_def same_slot_def)

lemma fst_process_source:
  "fst (process_source name r)
   = (case r of
        Fulfilled v \<Rightarrow> if v \<noteq> [] then selectTopN (normalizeScores v name) (TOP_N_PER_SOURCE name) else []
      | Rejected reason \<Rightarrow> [])"
  by (simp add: process_source_def Let_def split: settled.splits)

lemma processed_articles:
  "concat (map fst (map (\<lambda>(name, result). process_source name result) (articleSources e)))
   = collected_articles e"
  by (simp add: collected_articles_def articleSources_def fst_process_source)

lemma publish_old_rows:
  assumes "ids_fresh d"
  shows "map (publish (next_uuid d) t) (editions d) = editions d"
proof -
  have "\<forall>r \<in> set (editions d). publish (next_uuid d) t r = r"
    using assms by (auto simp: ids_fresh_def list_all_iff publish_def)
  then show ?thesis by (simp add: map_idI)
qed

lemma source_article_values: "source (article_values eid a) = source a"
  by (simp add: article_values_def)

lemma enum_error_None_iff:
  "enum_error (map (article_values eid) xs) = None
   \<longleftrightarrow> (\<forall>a \<in> set xs. source a \<in> set articleSourceEnum)"
proof -
  have "enum_error rows = None
        \<longleftrightarrow> filter (\<lambda>r. source r \<notin> set articleSourceEnum) rows = []" for rows
    by (simp add: enum_error_def split: list.splits)
  then show ?thesis
    by (simp add: filter_empty_conv source_article_values)
qed

lemma collect_success:
  assumes f: "select_fails (faults e) = None" "insert_edition_fails (faults e) = None"
      "insert_articles_fails (faults e) = None" "update_fails (faults e) = None"
    and free: "filter (same_slot (determineEditionType (tokyoHour e)) (today e)) (editions (database w)) = []"
    and fresh: "ids_fresh (database w)"
    and enum: "\<forall>a \<in> set (collected_articles e). source a \<in> set articleSourceEnum"
  shows "collect e w =
     (Collected
        \<lparr>sum_editionId = next_uuid (database w),
         sum_editionType = determineEditionType (tokyoHour e),
         sum_date = today e,
         articlesCollected = length (collected_articles e),
         sum_sources = map (\<lambda>(name, result). snd (process_source name result)) (articleSources e)
                       @ [weather_result (weatherResult e), stocks_result (stockResult e)],
         elapsedMs = end_ms e - start_ms e\<rparr>,
      \<lparr>database =
         \<lparr>editions = editions (database w) @
                      [\<lparr>edition_id = next_uuid (database w),
                        edition_type = determineEditionType (tokyoHour e),
                        edition_date = today e,
                        publishedAt = Some (publish_time e),
                        edition_status = Published\<rparr>],
          articles = articles (database w) @
                     map (article_values (next_uuid (database w))) (collected_articles e),
          next_uuid = Suc (next_uuid (database w))\<rparr>,
       widget_cache = widget_cache w @
                      (if redis_configured e
                       then [(WIDGET_CACHE_KEY, widget_value e, WIDGET_CACHE_TTL)] else [])\<rparr>)"
proof -
  have p: "map (publish (next_uuid (database w)) (publish_time e)) (editions (database w))
           = editions (database w)"
    using fresh by (rule publish_old_rows)
  have m: "map (snd \<circ> (\<lambda>(name, result). process_source name result)) (articleSources e)
           = map (\<lambda>(name, result). snd (process_source name result)) (articleSources e)"
    by (rule map_cong) auto
  have i: "insert_articles_error (faults e)
             (map (article_values (next_uuid (database w))) (collected_articles e)) = None"
    using f(3) enum by (simp add: insert_articles_error_def enum_error_None_iff)
  show ?thesis
    using f free p m i processed_articles[of e]
    by (cases w; cases "database w") (simp add: collect_def Let_def publish_def)
qed

lemma collect_enum_failure:
  assumes f: "select_fails (faults e) = None" "insert_edition_fails (faults e) = None"
      "insert_articles_fails (faults e) = None"
    and free: "filter (same_slot (determineEditionType (tokyoHour e)) (today e)) (editions (database w)) = []"
    and bad: "\<exists>a \<in> set (collected_articles e). source a \<notin> set articleSourceEnum"
  shows "\<exists>msg. collect e w =
     (Failed msg (map (\<lambda>(name, result). snd (process_source name result)) (articleSources e))
        (end_ms e - start_ms e),
      w\<lparr>database := (database w)
           \<lparr>editions := editions (database w) @
                        [\<lparr>edition_id = next_uuid (database w),
                          edition_type = determineEditionType (tokyoHour e),
                          edition_date = today e,
                          publishedAt = None,
                          edition_status = Draft\<rparr>],
            next_uuid := Suc (next_uuid (database w))\<rparr>\<rparr>)"
proof -
  have m: "map (snd \<circ> (\<lambda>(name, result). process_source name result)) (articleSources e)
           = map (\<lambda>(name, result). snd (process_source name result)) (articleSources e)"
    by (rule map_cong) auto
  have ne: "collected_articles e \<noteq> []" using bad by auto
  have "enum_error (map (article_values (next_uuid (database w))) (collected_articles e)) \<noteq> None"
    using bad by (simp add: enum_error_None_iff)
  then obtain msg where
    i: "insert_articles_error (faults e)
          (map (article_values (next_uuid (database w))) (collected_articles e)) = Some msg"
    using f(3) by (auto simp: insert_articles_error_def)
  have "collect e w =
     (Failed msg (map (\<lambda>(name, result). snd (process_source name result)) (articleSources e))
        (end_ms e - start_ms e),
      w\<lparr>database := (database w)
           \<lparr>editions := editions (database w) @
                        [\<lparr>edition_id = next_uuid (database w),
                          edition_type = determineEditionType (tokyoHour e),
                          edition_date = today e,
                          publishedAt = None,
                          edition_status = Draft\<rparr>],
            next_uuid := Suc (next_uuid (database w))\<rparr>\<rparr>)"
    unfolding collect_def Let_def processed_articles
    using f free m i ne by (simp add: take1_filter_Nil)
  then show ?thesis by blast
qed

lemma GET_skipped:
  assumes "\<not> (\<exists>s. CRON_SECRET e = Some s \<and> s \<noteq> [] \<and> authorization e \<noteq> Some (''Bearer '' @ s))"
    and "select_fails (faults e) = None"
    and "filter (same_slot (determineEditionType (tokyoHour e)) (today e)) (editions (database w)) = x # xs"
  shows "GET e w = (Skipped (edition_id x), w)"
  using GET_passes_guard[OF assms(1), of w] collect_skipped[OF assms(2,3)] by simp

lemma GET_slot_taken:
  assumes "filter (same_slot (determineEditionType (tokyoHour e)) (today e)) (editions (database w)) \<noteq> []"
  shows "snd (GET e w) = w"
  using GET_world[of e w] collect_slot_taken[OF assms] by auto

lemma GET_twice:
  assumes auth: "\<not> (\<exists>s. CRON_SECRET e = Some s \<and> s \<noteq> [] \<and> authorization e \<noteq> Some (''Bearer '' @ s))"
    and ok: "select_fails (faults e) = None" "insert_edition_fails (faults e) = None"
    and free: "filter (same_slot (determineEditionType (tokyoHour e)) (today e)) (editions (database w)) = []"
    and slot: "determineEditionType (tokyoHour e') = determineEditionType (tokyoHour e)" "today e' = today e"
  shows "snd (GET e' (snd (GET e w))) = snd (GET e w)"
    and "slot_count (determineEditionType (tokyoHour e)) (today e)
           (database (snd (GET e' (snd (GET e w))))) = 1"
    and "\<not> (\<exists>s. CRON_SECRET e' = Some s \<and> s \<noteq> [] \<and> authorization e' \<noteq> Some (''Bearer '' @ s))
         \<and> select_fails (faults e') = None
         \<longrightarrow> fst (GET e' (snd (GET e w))) = Skipped (next_uuid (database w))"
proof -
  have g: "GET e w = collect e w" using auth by (rule GET_passes_guard)
  obtain r where r: "filter (same_slot (determineEditionType (tokyoHour e)) (today e))
                       (editions (database (snd (GET e w)))) = [r]"
      "edition_id r = next_uuid (database w)"
    using collect_new_edition[OF ok free] g by auto
  then have r': "filter (same_slot (determineEditionType (tokyoHour e')) (today e'))
                       (editions (database (snd (GET e w)))) = [r]"
    using slot by simp
  show same: "snd (GET e' (snd (GET e w))) = snd (GET e w)"
    by (rule GET_slot_taken) (simp add: r')
  show "slot_count (determineEditionType (tokyoHour e)) (today e)
           (database (snd (GET e' (snd (GET e w))))) = 1"
    unfolding same by (simp add: slot_count_def r(1))
  show "\<not> (\<exists>s. CRON_SECRET e' = Some s \<and> s \<noteq> [] \<and> authorization e' \<noteq> Some (''Bearer '' @ s))
         \<and> select_fails (faults e') = None
         \<longrightarrow> fst (GET e' (snd (GET e w))) = Skipped (next_uuid (database w))"
    using GET_skipped[of e' "snd (GET e w)" r "[]"] r' r(2) by auto
qed

lemma selectTopN_subset: "set (selectTopN xs k) \<subseteq> set xs"
proof -
  have "set (take k (sort_key (\<lambda>a. - score a) xs)) \<subseteq> set (sort_key (\<lambda>a. - score a) xs)"
    by (rule set_take_subset)
  then show ?thesis by (simp add: selectTopN_spec spec_topK_def)
qed

lemma normalizeScores_whole:
  assumes "a \<in> set (normalizeScores v name)"
  shows "Math_round (score a) = score a"
proof -
  have "\<exists>raw. score a = normalized_score (SCORE_RANGES name) raw"
    using assms by (auto simp: normalizeScores_def Let_def)
  then obtain z where "score a = of_int z"
    by (auto simp: normalized_score_def Math_round_def)
  then show ?thesis by (simp add: Math_round_of_int)
qed

lemma collected_scores_whole:
  assumes "a \<in> set (collected_articles e)"
  shows "Math_round (score a) = score a"
proof -
  obtain name v where "a \<in> set (selectTopN (normalizeScores v name) (TOP_N_PER_SOURCE name))"
    using assms by (auto simp: collected_articles_def split: settled.splits if_splits)
  then have "a \<in> set (normalizeScores v name)" using selectTopN_subset by blast
  then show ?thesis by (rule normalizeScores_whole)
qed

lemma process_source_failed:
  assumes "\<forall>v. result = Fulfilled v \<longrightarrow> v = []"
  shows "\<exists>msg. process_source name result
           = ([], \<lparr>sr_source = source_name name, sr_status = failure, sr_count = 0,
                   sr_error = Some msg\<rparr>)"
  using assms by (cases result) (simp_all add: process_source_def)

lemma process_source_empty:
  "process_source name (Fulfilled [])
   = ([], \<lparr>sr_source = source_name name, sr_status = failure, sr_count = 0,
           sr_error = Some ''No articles returned''\<rparr>)"
  by (simp add: process_source_def)

lemma process_source_rejected:
  "process_source name (Rejected reason)
   = ([], \<lparr>sr_source = source_name name, sr_status = failure, sr_count = 0,
           sr_error = Some reason\<rparr>)"
  by (simp add: process_source_def)

lemma process_source_success_iff:
  "sr_status (snd (process_source name result)) = success
   \<longleftrightarrow> (\<exists>v. result = Fulfilled v \<and> v \<noteq> [])"
  by (cases result) (simp_all add: process_source_def Let_def)

lemma process_source_success:
  assumes "v \<noteq> []"
  shows "process_source name (Fulfilled v)
         = (selectTopN (normalizeScores v name) (TOP_N_PER_SOURCE name),
            \<lparr>sr_source = source_name name, sr_status = success,
             sr_count = min (TOP_N_PER_SOURCE name) (length v), sr_error = None\<rparr>)"
  using assms by (simp add: process_source_def Let_def selectTopN_length normalizeScores_def)

lemma collected_sources:
  assumes "fst (collect e w) = Collected s"
  shows "sum_sources s = map (\<lambda>(name, result). snd (process_source name result)) (articleSources e)
                         @ [weather_result (weatherResult e), stocks_result (stockResult e)]"
proof -
  have m: "map (snd \<circ> (\<lambda>(name, result). process_source name result)) (articleSources e)
           = map (\<lambda>(name, result). snd (process_source name result)) (articleSources e)"
    by (rule map_cong) auto
  show ?thesis
    using assms m
    by (auto simp: collect_def Let_def split: option.splits list.splits if_splits)
qed

lemma GET_collected_sources:
  assumes "fst (GET e w) = Collected s"
  shows "sum_sources s = map (\<lambda>(name, result). snd (process_source name result)) (articleSources e)
                         @ [weather_result (weatherResult e), stocks_result (stockResult e)]"
proof -
  have "fst (GET e w) = fst (collect e w)"
    using assms by (auto simp: GET_def split: option.splits if_splits)
  with assms show ?thesis using collected_sources by simp
qed

lemma all_failed_nothing_collected:
  assumes "\<forall>(name, result) \<in> set (articleSources e). \<forall>v. result = Fulfilled v \<longrightarrow> v = []"
  shows "collected_articles e = []"
  using assms by (auto simp: collected_articles_def split: settled.splits)

lemma GET_success:
  assumes "\<not> (\<exists>s. CRON_SECRET e = Some s \<and> s \<noteq> [] \<and> authorization e \<noteq> Some (''Bearer '' @ s))"
    and "select_fails (faults e) = None" "insert_edition_fails (faults e) = None"
      "insert_articles_fails (faults e) = None" "update_fails (faults e) = None"
    and "filter (same_slot (determineEditionType (tokyoHour e)) (today e)) (editions (database w)) = []"
    and "ids_fresh (database w)"
    and "\<forall>a \<in> set (collected_articles e). source a \<in> set articleSourceEnum"
  shows "GET e w =
     (Collected
        \<lparr>sum_editionId = next_uuid (database w),
         sum_editionType = determineEditionType (tokyoHour e),
         sum_date = today e,
         articlesCollected = length (collected_articles e),
         sum_sources = map (\<lambda>(name, result). snd (process_source name result)) (articleSources e)
                       @ [weather_result (weatherResult e), stocks_result (stockResult e)],
         elapsedMs = end_ms e - start_ms e\<rparr>,
      \<lparr>database =
         \<lparr>editions = editions (database w) @
                      [\<lparr>edition_id = next_uuid (database w),
                        edition_type = determineEditionType (tokyoHour e),
                        edition_date = today e,
                        publishedAt = Some (publish_time e),
                        edition_status = Published\<rparr>],
          articles = articles (database w) @
                     map (article_values (next_uuid (database w))) (collected_articles e),
          next_uuid = Suc (next_uuid (database w))\<rparr>,
       widget_cache = widget_cache w @
                      (if redis_configured e
                       then [(WIDGET_CACHE_KEY, widget_value e, WIDGET_CACHE_TTL)] else [])\<rparr>)"
  using GET_passes_guard[OF assms(1), of w] collect_success[OF assms(2-8)] by simp

lemma GET_enum_failure:
  assumes "\<not> (\<exists>s. CRON_SECRET e = Some s \<and> s \<noteq> [] \<and> authorization e \<noteq> Some (''Bearer '' @ s))"
    and "select_fails (faults e) = None" "insert_edition_fails (faults e) = None"
      "insert_articles_fails (faults e) = None"
    and "filter (same_slot (determineEditionType (tokyoHour e)) (today e)) (editions (database w)) = []"
    and "\<exists>a \<in> set (collected_articles e). source a \<notin> set articleSourceEnum"
  shows "\<exists>msg. GET e w =
     (Failed msg (map (\<lambda>(name, result). snd (process_source name result)) (articleSources e))
        (end_ms e - start_ms e),
      w\<lparr>database := (database w)
           \<lparr>editions := editions (database w) @
                        [\<lparr>edition_id = next_uuid (database w),
                          edition_type = determineEditionType (tokyoHour e),
                          edition_date = today e,
                          publishedAt = None,
                          edition_status = Draft\<rparr>],
            next_uuid := Suc (next_uuid (database w))\<rparr>\<rparr>)"
  using GET_passes_guard[OF assms(1), of w] collect_enum_failure[OF assms(2-6)] by simp

lemma normalizeScores_sources:
  "source ` set (normalizeScores v name) = source ` set v"
  by (auto simp: normalizeScores_def Let_def image_iff)

lemma collected_article_origin:
  assumes "a \<in> set (collected_articles e)"
  shows "\<exists>name v. (name, Fulfilled v) \<in> set (articleSources e) \<and> source a \<in> source ` set v"
proof -
  obtain name v where nv: "(name, Fulfilled v) \<in> set (articleSources e)"
      "a \<in> set (selectTopN (normalizeScores v name) (TOP_N_PER_SOURCE name))"
    using assms by (auto simp: collected_articles_def split: settled.splits if_splits)
  then have "a \<in> set (normalizeScores v name)" using selectTopN_subset by blast
  then have "source a \<in> source ` set v" using normalizeScores_sources[of v name] by blast
  with nv(1) show ?thesis by blast
qed

lemma spec_edition_articles_collected: "spec_edition_articles e = collected_articles e"
proof -
  have "(case result of
           Fulfilled v \<Rightarrow> spec_topK (normalizeScores v name) (TOP_N_PER_SOURCE name)
         | Rejected reason \<Rightarrow> [])
        = (case result of
             Fulfilled v \<Rightarrow>
               if v \<noteq> [] then selectTopN (normalizeScores v name) (TOP_N_PER_SOURCE name) else []
           | Rejected reason \<Rightarrow> [])" for name :: ArticleSource and result
    by (cases result) (simp_all add: selectTopN_spec spec_topK_def normalizeScores_def)
  then show ?thesis
    by (simp add: spec_edition_articles_def collected_articles_def)
qed

lemma sample_run_conditions:
  "\<not> (\<exists>s. CRON_SECRET sample_env = Some s \<and> s \<noteq> []
          \<and> authorization sample_env \<noteq> Some (''Bearer '' @ s))"
  "select_fails (faults sample_env) = None" "insert_edition_fails (faults sample_env) = None"
  "insert_articles_fails (faults sample_env) = None" "update_fails (faults sample_env) = None"
  "filter (same_slot (determineEditionType (tokyoHour sample_env)) (today sample_env))
     (editions (database sample_world)) = []"
  "ids_fresh (database sample_world)"
  "\<forall>a \<in> set (collected_articles sample_env). source a \<in> set articleSourceEnum"
proof -
  show "\<forall>a \<in> set (collected_articles sample_env). source a \<in> set articleSourceEnum"
  proof
    fix a assume "a \<in> set (collected_articles sample_env)"
    then obtain name v where "(name, Fulfilled v) \<in> set (articleSources sample_env)"
        "source a \<in> source ` set v"
      using collected_article_origin by blast
    then have "source a = Github"
      by (auto simp: articleSources_def sample_env_def sample_article_def)
    then show "source a \<in> set articleSourceEnum" by (simp add: articleSourceEnum_def)
  qed
qed (simp_all add: sample_env_def sample_world_def same_slot_def determineEditionType_def
        ids_fresh_def)

lemma normalizeScores_length: "length (normalizeScores v name) = length v"
  by (simp add: normalizeScores_def Let_def)

lemma sample_collected_length: "length (collected_articles sample_env) = 8"
  by (simp add: collected_articles_def articleSources_def sample_env_def selectTopN_length
        normalizeScores_length)

section \<open>Claims about the collection route\<close>

text \<open>
  C9: with \<^verbatim>\<open>CRON_SECRET\<close> unset the guard lets every request through, whatever its
  \<^verbatim>\<open>Authorization\<close> header, and the run is the collection itself; the answer is 401
  exactly when a (non-empty) secret is set and the header is not \<open>Bearer <secret>\<close>.
\<close>

theorem GET_auth_guard:
  "(CRON_SECRET e = None \<longrightarrow> GET e w = collect e w \<and> http_status (fst (GET e w)) \<noteq> 401)
   \<and> (http_status (fst (GET e w)) = 401
        \<longleftrightarrow> (\<exists>s. CRON_SECRET e = Some s \<and> s \<noteq> [] \<and> authorization e \<noteq> Some (''Bearer '' @ s)))
   \<and> (http_status (fst (GET e w)) = 401 \<longleftrightarrow> GET e w = (Unauthorized, w))
   \<and> (http_status (fst (GET e w)) \<noteq> 401 \<longrightarrow> GET e w = collect e w)"
proof -
  have s: "http_status (fst (GET e w)) = 401 \<longleftrightarrow> fst (GET e w) = Unauthorized"
    by (cases "fst (GET e w)") simp_all
  have u: "fst (GET e w) = Unauthorized \<longleftrightarrow> GET e w = (Unauthorized, w)"
    using collect_not_401[of e w] by (auto simp: GET_def split: option.splits)
  show ?thesis
    unfolding s using GET_401_iff[of e w] GET_passes_guard[of e w] u by auto
qed

theorem GET_auth_guard_witness:
  "CRON_SECRET sample_env = None \<and> authorization sample_env = None
   \<and> GET sample_env sample_world = collect sample_env sample_world
   \<and> http_status (fst (GET sample_env sample_world)) = 200
   \<and> GET locked_env sample_world = (Unauthorized, sample_world)"
proof -
  have a: "CRON_SECRET sample_env = None" "authorization sample_env = None"
    by (simp_all add: sample_env_def)
  have b: "\<exists>s. CRON_SECRET locked_env = Some s \<and> s \<noteq> []
             \<and> authorization locked_env \<noteq> Some (''Bearer '' @ s)"
    by (simp add: locked_env_def)
  from GET_auth_guard[of sample_env sample_world] a
  have c: "GET sample_env sample_world = collect sample_env sample_world" by blast
  have d: "http_status (fst (GET sample_env sample_world)) = 200"
    by (simp add: GET_success[OF sample_run_conditions])
  from GET_auth_guard[of locked_env sample_world] b
  have "GET locked_env sample_world = (Unauthorized, sample_world)" by blast
  with a c d show ?thesis by blast
qed

text \<open>
  C10: a source whose promise fulfils with the empty list is recorded with status
  \<open>failure\<close>, count 0 and error \<open>No articles returned\<close>; a rejected one with status
  \<open>failure\<close>, count 0 and the stringified reason. A source is recorded as \<open>success\<close>
  exactly when it fulfils with at least one article. These records are what the summary of
  a finished run lists for the nine article sources.
\<close>

theorem empty_result_is_failure:
  "snd (process_source name (Fulfilled []))
     = \<lparr>sr_source = source_name name, sr_status = failure, sr_count = 0,
        sr_error = Some ''No articles returned''\<rparr>
   \<and> snd (process_source name (Rejected reason))
     = \<lparr>sr_source = source_name name, sr_status = failure, sr_count = 0,
        sr_error = Some reason\<rparr>
   \<and> (sr_status (snd (process_source name result)) = success
        \<longleftrightarrow> (\<exists>v. result = Fulfilled v \<and> v \<noteq> []))
   \<and> (fst (GET e w) = Collected s
        \<longrightarrow> take 9 (sum_sources s)
            = map (\<lambda>(name, result). snd (process_source name result)) (articleSources e)
          \<and> length (articleSources e) = 9)
   \<and> (fst (GET e w) = Collected s \<and> (name, Fulfilled []) \<in> set (articleSources e)
        \<longrightarrow> \<lparr>sr_source = source_name name, sr_status = failure, sr_count = 0,
             sr_error = Some ''No articles returned''\<rparr> \<in> set (sum_sources s))"
proof -
  have len: "length (articleSources e) = 9" by (simp add: articleSources_def)
  have a: "take 9 (sum_sources s)
            = map (\<lambda>(name, result). snd (process_source name result)) (articleSources e)"
    if "fst (GET e w) = Collected s"
    using GET_collected_sources[OF that] len by simp
  have b: "\<lparr>sr_source = source_name name, sr_status = failure, sr_count = 0,
             sr_error = Some ''No articles returned''\<rparr> \<in> set (sum_sources s)"
    if "fst (GET e w) = Collected s" "(name, Fulfilled []) \<in> set (articleSources e)"
  proof -
    have "snd (process_source name (Fulfilled []))
          \<in> (\<lambda>(name, result). snd (process_source name result)) ` set (articleSources e)"
      using that(2) by force
    then show ?thesis
      using GET_collected_sources[OF that(1)] by (simp add: process_source_empty)
  qed
  show ?thesis
    using a b len process_source_success_iff[of name result]
    by (simp add: process_source_empty process_source_rejected)
qed

theorem empty_result_is_failure_witness:
  "(Reddit, Fulfilled []) \<in> set (articleSources sample_env)
   \<and> (\<exists>s. fst (GET sample_env sample_world) = Collected s
          \<and> \<lparr>sr_source = ''reddit'', sr_status = failure, sr_count = 0,
              sr_error = Some ''No articles returned''\<rparr> \<in> set (sum_sources s))"
proof -
  have m: "(Reddit, Fulfilled []) \<in> set (articleSources sample_env)"
    by (simp add: articleSources_def sample_env_def)
  obtain s where s: "fst (GET sample_env sample_world) = Collected s"
    by (simp add: GET_success[OF sample_run_conditions])
  from empty_result_is_failure[of Reddit _ _ sample_env sample_world s] s m
  have "\<lparr>sr_source = source_name Reddit, sr_status = failure, sr_count = 0,
          sr_error = Some ''No articles returned''\<rparr> \<in> set (sum_sources s)"
    by blast
  with m s show ?thesis by auto
qed

text \<open>
  C1: when an edition of the slot (type, date) exists and the query for it succeeds, an
  authorised invocation answers \<open>skipped\<close> with the id of that edition and leaves the
  store as it was; with an edition of the slot in the store no invocation writes anything,
  whatever else happens. Every invocation keeps the store at one edition per slot at most.
  Two invocations in a row for a free slot, the first one creating its draft, leave exactly
  one edition of the slot: the second changes nothing and, when it gets as far as the
  query, answers \<open>skipped\<close> with the id the first one created.
\<close>

theorem GET_idempotent:
  "(\<not> (\<exists>s. CRON_SECRET e = Some s \<and> s \<noteq> [] \<and> authorization e \<noteq> Some (''Bearer '' @ s))
      \<and> select_fails (faults e) = None
      \<and> filter (same_slot (determineEditionType (tokyoHour e)) (today e)) (editions (database w))
          = x # xs
      \<longrightarrow> GET e w = (Skipped (edition_id x), w)
          \<and> response_status (fst (GET e w)) = ''skipped''
          \<and> x \<in> set (editions (database w))
          \<and> same_slot (determineEditionType (tokyoHour e)) (today e) x)
   \<and> (filter (same_slot (determineEditionType (tokyoHour e)) (today e)) (editions (database w))
          \<noteq> []
        \<longrightarrow> snd (GET e w) = w)
   \<and> (slot_unique (database w) \<longrightarrow> slot_unique (database (snd (GET e w))))
   \<and> (\<not> (\<exists>s. CRON_SECRET e = Some s \<and> s \<noteq> [] \<and> authorization e \<noteq> Some (''Bearer '' @ s))
        \<and> select_fails (faults e) = None \<and> insert_edition_fails (faults e) = None
        \<and> filter (same_slot (determineEditionType (tokyoHour e)) (today e)) (editions (database w))
            = []
        \<and> determineEditionType (tokyoHour e') = determineEditionType (tokyoHour e)
        \<and> today e' = today e
        \<longrightarrow> snd (GET e' (snd (GET e w))) = snd (GET e w)
            \<and> slot_count (determineEditionType (tokyoHour e)) (today e)
                 (database (snd (GET e' (snd (GET e w))))) = 1
            \<and> (\<not> (\<exists>s. CRON_SECRET e' = Some s \<and> s \<noteq> []
                       \<and> authorization e' \<noteq> Some (''Bearer '' @ s))
                 \<and> select_fails (faults e') = None
                 \<longrightarrow> fst (GET e' (snd (GET e w))) = Skipped (next_uuid (database w))))"
proof (intro conjI impI)
  assume a: "\<not> (\<exists>s. CRON_SECRET e = Some s \<and> s \<noteq> [] \<and> authorization e \<noteq> Some (''Bearer '' @ s))
      \<and> select_fails (faults e) = None
      \<and> filter (same_slot (determineEditionType (tokyoHour e)) (today e)) (editions (database w))
          = x # xs"
  then show g: "GET e w = (Skipped (edition_id x), w)" using GET_skipped by blast
  show "response_status (fst (GET e w)) = ''skipped''" by (simp add: g)
  from a show "x \<in> set (editions (database w))" using filter_Cons_member by fast
  from a show "same_slot (determineEditionType (tokyoHour e)) (today e) x"
    using filter_Cons_member by fast
next
  assume "filter (same_slot (determineEditionType (tokyoHour e)) (today e)) (editions (database w)) \<noteq> []"
  then show "snd (GET e w) = w" by (rule GET_slot_taken)
next
  assume "slot_unique (database w)"
  then show "slot_unique (database (snd (GET e w)))" by (rule GET_keeps_slot_unique)
next
  assume b: "\<not> (\<exists>s. CRON_SECRET e = Some s \<and> s \<noteq> [] \<and> authorization e \<noteq> Some (''Bearer '' @ s))
        \<and> select_fails (faults e) = None \<and> insert_edition_fails (faults e) = None
        \<and> filter (same_slot (determineEditionType (tokyoHour e)) (today e)) (editions (database w))
            = []
        \<and> determineEditionType (tokyoHour e') = determineEditionType (tokyoHour e)
        \<and> today e' = today e"
  then show "snd (GET e' (snd (GET e w))) = snd (GET e w)" using GET_twice(1) by blast
  from b show "slot_count (determineEditionType (tokyoHour e)) (today e)
                 (database (snd (GET e' (snd (GET e w))))) = 1"
    using GET_twice(2) by blast
  assume "\<not> (\<exists>s. CRON_SECRET e' = Some s \<and> s \<noteq> [] \<and> authorization e' \<noteq> Some (''Bearer '' @ s))
          \<and> select_fails (faults e') = None"
  with b show "fst (GET e' (snd (GET e w))) = Skipped (next_uuid (database w))"
    using GET_twice(3)[of e w e'] by blast
qed

theorem GET_idempotent_witness:
  "slot_unique (database sample_world)
   \<and> slot_count Morning ''2026-02-07'' (database sample_world) = 0
   \<and> fst (GET sample_env (snd (GET sample_env sample_world))) = Skipped 1
   \<and> snd (GET sample_env (snd (GET sample_env sample_world))) = snd (GET sample_env sample_world)
   \<and> slot_count Morning ''2026-02-07''
        (database (snd (GET sample_env (snd (GET sample_env sample_world))))) = 1
   \<and> slot_unique (database (snd (GET sample_env (snd (GET sample_env sample_world)))))
   \<and> GET evening_env sample_world = (Skipped 0, sample_world)"
proof -
  let ?w1 = "snd (GET sample_env sample_world)"
  let ?row = "\<lparr>edition_id = 0, edition_type = Evening, edition_date = ''2026-02-06'',
               publishedAt = Some 10, edition_status = Published\<rparr>"
  have ev: "\<not> (\<exists>s. CRON_SECRET evening_env = Some s \<and> s \<noteq> []
                 \<and> authorization evening_env \<noteq> Some (''Bearer '' @ s))"
    "select_fails (faults evening_env) = None"
    "filter (same_slot (determineEditionType (tokyoHour evening_env)) (today evening_env))
       (editions (database sample_world)) = ?row # []"
    by (simp_all add: evening_env_def sample_env_def sample_world_def same_slot_def
          determineEditionType_def)
  from GET_idempotent[of evening_env sample_world ?row "[]"] ev
  have skip: "GET evening_env sample_world = (Skipped (edition_id ?row), sample_world)"
    by blast
  have u: "slot_unique (database sample_world)"
    by (simp add: slot_unique_def sample_world_def)
  have z: "slot_count Morning ''2026-02-07'' (database sample_world) = 0"
    by (simp add: slot_count_def sample_world_def same_slot_def)
  have slot: "determineEditionType (tokyoHour sample_env) = Morning" "today sample_env = ''2026-02-07''"
    "next_uuid (database sample_world) = 1"
    by (simp_all add: sample_env_def sample_world_def determineEditionType_def)
  note c = sample_run_conditions
  note t = GET_idempotent[of sample_env sample_world _ _ sample_env]
  from t c(1,2,3,6)
  have two: "snd (GET sample_env ?w1) = ?w1"
    "slot_count (determineEditionType (tokyoHour sample_env)) (today sample_env)
       (database (snd (GET sample_env ?w1))) = 1"
    "fst (GET sample_env ?w1) = Skipped (next_uuid (database sample_world))"
    by blast+
  from t u have u1: "slot_unique (database ?w1)" by blast
  from two u1 u z slot skip show ?thesis by simp
qed

lemma github_prs_not_in_enum: "Github_prs \<notin> set articleSourceEnum"
  by (simp add: articleSourceEnum_def)

lemma github_prs_selected:
  assumes "ghPrsResult e = Fulfilled v" "v \<noteq> []" "\<forall>a \<in> set v. source a = Github_prs"
  shows "\<exists>a \<in> set (collected_articles e). source a \<notin> set articleSourceEnum"
proof -
  let ?top = "selectTopN (normalizeScores v Github_prs) (TOP_N_PER_SOURCE Github_prs)"
  have "length ?top = min 10 (length v)"
    by (simp add: selectTopN_length normalizeScores_length)
  then have "?top \<noteq> []" using assms(2) by (cases v) auto
  then obtain a where a: "a \<in> set ?top" by (cases ?top) auto
  then have "a \<in> set (normalizeScores v Github_prs)" using selectTopN_subset by blast
  then have "source a \<in> source ` set v" using normalizeScores_sources[of v Github_prs] by blast
  then have s: "source a = Github_prs" using assms(3) by auto
  have "a \<in> set (collected_articles e)"
    using a assms(1,2) by (simp add: collected_articles_def articleSources_def)
  moreover have "source a \<notin> set articleSourceEnum"
    using s github_prs_not_in_enum by simp
  ultimately show ?thesis by (rule bexI[rotated])
qed

lemma collected_scores_range:
  assumes "a \<in> set (collected_articles e)"
  shows "0 \<le> score a \<and> score a \<le> 100 \<and> score a \<in> \<int>"
proof -
  obtain name v where "a \<in> set (selectTopN (normalizeScores v name) (TOP_N_PER_SOURCE name))"
    using assms by (auto simp: collected_articles_def split: settled.splits if_splits)
  then have "a \<in> set (normalizeScores v name)" using selectTopN_subset by blast
  then obtain raw where "score a = normalized_score (SCORE_RANGES name) raw"
    by (auto simp: normalizeScores_def Let_def)
  then show ?thesis
    using normalized_score_range[of "SCORE_RANGES name" raw]
      normalized_score_int[of "SCORE_RANGES name" raw] by simp
qed

lemma source_results_listed:
  assumes "(name, result) \<in> set (articleSources e)"
  shows "snd (process_source name result)
         \<in> set (map (\<lambda>(name, result). snd (process_source name result)) (articleSources e) @ rest)"
proof -
  have "snd (process_source name result)
        \<in> (\<lambda>(name, result). snd (process_source name result)) ` set (articleSources e)"
    using assms by force
  then show ?thesis unfolding set_append set_map by blast
qed

text \<open>
  C2: take a run that passes the guard, finds no edition of its slot, in a store whose ids
  all come from the generator, and whose database calls meet no outside failure. Whether it
  tolerates the failed sources depends on the sources that succeeded. The run answers 500
  exactly when one of the top-K normalised articles of the succeeded sources bears a
  \<^verbatim>\<open>source\<close> that is not a label of the database enum, and this is so whenever the
  pull-request source succeeds with its own articles (\<^verbatim>\<open>github_prs\<close>): the insert is
  refused, the edition stays a draft and no article is stored, whatever the other sources
  delivered. Otherwise the run answers \<open>success\<close>, publishes the edition and stores
  exactly the union over the succeeded sources of their top-K normalised articles, scores
  whole and within 0 and 100; each failed source is in the summary with status
  \<open>failure\<close>, count 0 and an error, each succeeded one with status \<open>success\<close> and its
  count. When all nine sources fail the edition is published with no article and the
  answer is \<open>success\<close>.
\<close>

theorem collection_partial_failure:
  assumes "\<not> (\<exists>s. CRON_SECRET e = Some s \<and> s \<noteq> [] \<and> authorization e \<noteq> Some (''Bearer '' @ s))"
    and "select_fails (faults e) = None" "insert_edition_fails (faults e) = None"
      "insert_articles_fails (faults e) = None" "update_fails (faults e) = None"
    and "filter (same_slot (determineEditionType (tokyoHour e)) (today e)) (editions (database w)) = []"
    and "ids_fresh (database w)"
  shows "length (articleSources e) = 9
         \<and> (http_status (fst (GET e w)) = 500
              \<longleftrightarrow> (\<exists>a \<in> set (spec_edition_articles e). source a \<notin> set articleSourceEnum))
         \<and> ((\<exists>v. ghPrsResult e = Fulfilled v \<and> v \<noteq> [] \<and> (\<forall>a \<in> set v. source a = Github_prs))
              \<longrightarrow> http_status (fst (GET e w)) = 500)
         \<and> (http_status (fst (GET e w)) = 500
              \<longrightarrow> response_status (fst (GET e w)) = ''error''
                  \<and> (\<exists>msg. fst (GET e w)
                        = Failed msg
                            (map (\<lambda>(name, result). snd (process_source name result))
                                 (articleSources e))
                            (end_ms e - start_ms e))
                  \<and> editions (database (snd (GET e w)))
                      = editions (database w) @
                        [\<lparr>edition_id = next_uuid (database w),
                          edition_type = determineEditionType (tokyoHour e),
                          edition_date = today e,
                          publishedAt = None,
                          edition_status = Draft\<rparr>]
                  \<and> articles (database (snd (GET e w))) = articles (database w))
         \<and> (http_status (fst (GET e w)) \<noteq> 500
              \<longrightarrow> (\<exists>s. fst (GET e w) = Collected s
                       \<and> sum_editionId s = next_uuid (database w)
                       \<and> articlesCollected s = length (spec_edition_articles e)
                       \<and> take 9 (sum_sources s)
                           = map (\<lambda>(name, result). snd (process_source name result))
                                 (articleSources e)
                       \<and> (\<forall>(name, result) \<in> set (articleSources e).
                              (\<forall>v. result = Fulfilled v \<longrightarrow> v = [])
                              \<longrightarrow> (\<exists>msg. \<lparr>sr_source = source_name name, sr_status = failure,
                                           sr_count = 0, sr_error = Some msg\<rparr>
                                         \<in> set (sum_sources s)))
                       \<and> (\<forall>(name, result) \<in> set (articleSources e).
                              \<forall>v. result = Fulfilled v \<and> v \<noteq> []
                              \<longrightarrow> \<lparr>sr_source = source_name name, sr_status = success,
                                   sr_count = min (TOP_N_PER_SOURCE name) (length v),
                                   sr_error = None\<rparr> \<in> set (sum_sources s)))
                  \<and> response_status (fst (GET e w)) = ''success''
                  \<and> http_status (fst (GET e w)) = 200
                  \<and> editions (database (snd (GET e w)))
                      = editions (database w) @
                        [\<lparr>edition_id = next_uuid (database w),
                          edition_type = determineEditionType (tokyoHour e),
                          edition_date = today e,
                          publishedAt = Some (publish_time e),
                          edition_status = Published\<rparr>]
                  \<and> articles (database (snd (GET e w)))
                      = articles (database w) @
                        map (article_values (next_uuid (database w))) (spec_edition_articles e)
                  \<and> map score (map (article_values (next_uuid (database w)))
                                    (spec_edition_articles e))
                      = map score (spec_edition_articles e)
                  \<and> (\<forall>a \<in> set (spec_edition_articles e).
                         0 \<le> score a \<and> score a \<le> 100 \<and> score a \<in> \<int>))
         \<and> ((\<forall>(name, result) \<in> set (articleSources e). \<forall>v. result = Fulfilled v \<longrightarrow> v = [])
              \<longrightarrow> spec_edition_articles e = []
                  \<and> response_status (fst (GET e w)) = ''success''
                  \<and> articles (database (snd (GET e w))) = articles (database w)
                  \<and> editions (database (snd (GET e w)))
                      = editions (database w) @
                        [\<lparr>edition_id = next_uuid (database w),
                          edition_type = determineEditionType (tokyoHour e),
                          edition_date = today e,
                          publishedAt = Some (publish_time e),
                          edition_status = Published\<rparr>])"
proof -
  let ?bad = "\<exists>a \<in> set (spec_edition_articles e). source a \<notin> set articleSourceEnum"
  let ?nine = "map (\<lambda>(name, result). snd (process_source name result)) (articleSources e)"
  let ?draft = "\<lparr>edition_id = next_uuid (database w),
                  edition_type = determineEditionType (tokyoHour e),
                  edition_date = today e,
                  publishedAt = None,
                  edition_status = Draft\<rparr>"
  let ?published = "\<lparr>edition_id = next_uuid (database w),
                      edition_type = determineEditionType (tokyoHour e),
                      edition_date = today e,
                      publishedAt = Some (publish_time e),
                      edition_status = Published\<rparr>"
  note sc = spec_edition_articles_collected[of e]
  have len: "length (articleSources e) = 9" by (simp add: articleSources_def)
  have fail: "response_status (fst (GET e w)) = ''error''
              \<and> http_status (fst (GET e w)) = 500
              \<and> (\<exists>msg. fst (GET e w) = Failed msg ?nine (end_ms e - start_ms e))
              \<and> editions (database (snd (GET e w))) = editions (database w) @ [?draft]
              \<and> articles (database (snd (GET e w))) = articles (database w)"
    if b: ?bad
  proof -
    from b have "\<exists>a \<in> set (collected_articles e). source a \<notin> set articleSourceEnum"
      by (simp add: sc)
    from GET_enum_failure[OF assms(1-4) assms(6) this]
    obtain msg where g: "GET e w =
       (Failed msg ?nine (end_ms e - start_ms e),
        w\<lparr>database := (database w)
             \<lparr>editions := editions (database w) @ [?draft],
              next_uuid := Suc (next_uuid (database w))\<rparr>\<rparr>)"
      by blast
    show ?thesis by (simp add: g)
  qed
  have ok: "(\<exists>s. fst (GET e w) = Collected s
               \<and> sum_editionId s = next_uuid (database w)
               \<and> articlesCollected s = length (spec_edition_articles e)
               \<and> take 9 (sum_sources s) = ?nine
               \<and> (\<forall>(name, result) \<in> set (articleSources e).
                      (\<forall>v. result = Fulfilled v \<longrightarrow> v = [])
                      \<longrightarrow> (\<exists>msg. \<lparr>sr_source = source_name name, sr_status = failure,
                                   sr_count = 0, sr_error = Some msg\<rparr>
                                 \<in> set (sum_sources s)))
               \<and> (\<forall>(name, result) \<in> set (articleSources e).
                      \<forall>v. result = Fulfilled v \<and> v \<noteq> []
                      \<longrightarrow> \<lparr>sr_source = source_name name, sr_status = success,
                           sr_count = min (TOP_N_PER_SOURCE name) (length v),
                           sr_error = None\<rparr> \<in> set (sum_sources s)))
            \<and> response_status (fst (GET e w)) = ''success''
            \<and> http_status (fst (GET e w)) = 200
            \<and> editions (database (snd (GET e w))) = editions (database w) @ [?published]
            \<and> articles (database (snd (GET e w)))
                = articles (database w) @
                  map (article_values (next_uuid (database w))) (spec_edition_articles e)"
    if nb: "\<not> ?bad"
  proof -
    from nb have en: "\<forall>a \<in> set (collected_articles e). source a \<in> set articleSourceEnum"
      by (simp add: sc)
    note g = GET_success[OF assms en]
    define S where "S =
        \<lparr>sum_editionId = next_uuid (database w),
         sum_editionType = determineEditionType (tokyoHour e),
         sum_date = today e,
         articlesCollected = length (collected_articles e),
         sum_sources = ?nine @ [weather_result (weatherResult e), stocks_result (stockResult e)],
         elapsedMs = end_ms e - start_ms e\<rparr>"
    have r: "fst (GET e w) = Collected S" by (simp add: g S_def)
    have d: "editions (database (snd (GET e w))) = editions (database w) @ [?published]"
      "articles (database (snd (GET e w)))
         = articles (database w) @
           map (article_values (next_uuid (database w))) (spec_edition_articles e)"
      by (simp_all add: g sc)
    have s1: "sum_editionId S = next_uuid (database w)"
      "articlesCollected S = length (spec_edition_articles e)"
      "take 9 (sum_sources S) = ?nine"
      using len by (simp_all add: S_def sc)
    have ss: "sum_sources S
              = ?nine @ [weather_result (weatherResult e), stocks_result (stockResult e)]"
      by (simp add: S_def)
    have s2: "\<forall>(name, result) \<in> set (articleSources e).
                (\<forall>v. result = Fulfilled v \<longrightarrow> v = [])
                \<longrightarrow> (\<exists>msg. \<lparr>sr_source = source_name name, sr_status = failure,
                             sr_count = 0, sr_error = Some msg\<rparr> \<in> set (sum_sources S))"
    proof (intro ballI, clarify)
      fix name result
      assume mem: "(name, result) \<in> set (articleSources e)"
        and bad: "\<forall>v. result = Fulfilled v \<longrightarrow> v = []"
      obtain msg where "snd (process_source name result)
          = \<lparr>sr_source = source_name name, sr_status = failure, sr_count = 0, sr_error = Some msg\<rparr>"
        using process_source_failed[OF bad, of name] by auto
      then show "\<exists>msg. \<lparr>sr_source = source_name name, sr_status = failure, sr_count = 0,
                       sr_error = Some msg\<rparr> \<in> set (sum_sources S)"
        using source_results_listed[OF mem] unfolding ss by metis
    qed
    have s3: "\<forall>(name, result) \<in> set (articleSources e).
                \<forall>v. result = Fulfilled v \<and> v \<noteq> []
                \<longrightarrow> \<lparr>sr_source = source_name name, sr_status = success,
                     sr_count = min (TOP_N_PER_SOURCE name) (length v),
                     sr_error = None\<rparr> \<in> set (sum_sources S)"
    proof (intro ballI, clarify)
      fix name v
      assume mem: "(name, Fulfilled v) \<in> set (articleSources e)" and ne: "v \<noteq> []"
      have "snd (process_source name (Fulfilled v))
          = \<lparr>sr_source = source_name name, sr_status = success,
             sr_count = min (TOP_N_PER_SOURCE name) (length v), sr_error = None\<rparr>"
        by (simp add: process_source_success[OF ne])
      then show "\<lparr>sr_source = source_name name, sr_status = success,
                  sr_count = min (TOP_N_PER_SOURCE name) (length v),
                  sr_error = None\<rparr> \<in> set (sum_sources S)"
        using source_results_listed[OF mem] unfolding ss by metis
    qed
    have st: "response_status (fst (GET e w)) = ''success''" "http_status (fst (GET e w)) = 200"
      by (simp_all add: r)
    from r s1 s2 s3 have "\<exists>s. fst (GET e w) = Collected s
               \<and> sum_editionId s = next_uuid (database w)
               \<and> articlesCollected s = length (spec_edition_articles e)
               \<and> take 9 (sum_sources s) = ?nine
               \<and> (\<forall>(name, result) \<in> set (articleSources e).
                      (\<forall>v. result = Fulfilled v \<longrightarrow> v = [])
                      \<longrightarrow> (\<exists>msg. \<lparr>sr_source = source_name name, sr_status = failure,
                                   sr_count = 0, sr_error = Some msg\<rparr>
                                 \<in> set (sum_sources s)))
               \<and> (\<forall>(name, result) \<in> set (articleSources e).
                      \<forall>v. result = Fulfilled v \<and> v \<noteq> []
                      \<longrightarrow> \<lparr>sr_source = source_name name, sr_status = success,
                           sr_count = min (TOP_N_PER_SOURCE name) (length v),
                           sr_error = None\<rparr> \<in> set (sum_sources s))"
      by blast
    with st d show ?thesis by (intro conjI)
  qed
  have iff: "http_status (fst (GET e w)) = 500 \<longleftrightarrow> ?bad"
  proof (cases ?bad)
    case True
    with fail show ?thesis by blast
  next
    case False
    with ok have "http_status (fst (GET e w)) = 200" by blast
    with False show ?thesis by simp
  qed
  have prs: "(\<exists>v. ghPrsResult e = Fulfilled v \<and> v \<noteq> [] \<and> (\<forall>a \<in> set v. source a = Github_prs))
             \<longrightarrow> http_status (fst (GET e w)) = 500"
    using github_prs_selected[of e] iff unfolding sc by blast
  have scores: "map score (map (article_values (next_uuid (database w))) (spec_edition_articles e))
                = map score (spec_edition_articles e)"
    using collected_scores_whole[of _ e] by (simp add: article_values_def sc)
  have whole: "\<forall>a \<in> set (spec_edition_articles e).
                 0 \<le> score a \<and> score a \<le> 100 \<and> score a \<in> \<int>"
    using collected_scores_range[of _ e] unfolding sc by blast
  have c4: "http_status (fst (GET e w)) = 500
              \<longrightarrow> response_status (fst (GET e w)) = ''error''
                  \<and> (\<exists>msg. fst (GET e w) = Failed msg ?nine (end_ms e - start_ms e))
                  \<and> editions (database (snd (GET e w))) = editions (database w) @ [?draft]
                  \<and> articles (database (snd (GET e w))) = articles (database w)"
    using iff fail by blast
  have c5: "http_status (fst (GET e w)) \<noteq> 500
              \<longrightarrow> (\<exists>s. fst (GET e w) = Collected s
                       \<and> sum_editionId s = next_uuid (database w)
                       \<and> articlesCollected s = length (spec_edition_articles e)
                       \<and> take 9 (sum_sources s) = ?nine
                       \<and> (\<forall>(name, result) \<in> set (articleSources e).
                              (\<forall>v. result = Fulfilled v \<longrightarrow> v = [])
                              \<longrightarrow> (\<exists>msg. \<lparr>sr_source = source_name name, sr_status = failure,
                                           sr_count = 0, sr_error = Some msg\<rparr>
                                         \<in> set (sum_sources s)))
                       \<and> (\<forall>(name, result) \<in> set (articleSources e).
                              \<forall>v. result = Fulfilled v \<and> v \<noteq> []
                              \<longrightarrow> \<lparr>sr_source = source_name name, sr_status = success,
                                   sr_count = min (TOP_N_PER_SOURCE name) (length v),
                                   sr_error = None\<rparr> \<in> set (sum_sources s)))
                  \<and> response_status (fst (GET e w)) = ''success''
                  \<and> http_status (fst (GET e w)) = 200
                  \<and> editions (database (snd (GET e w))) = editions (database w) @ [?published]
                  \<and> articles (database (snd (GET e w)))
                      = articles (database w) @
                        map (article_values (next_uuid (database w))) (spec_edition_articles e)
                  \<and> map score (map (article_values (next_uuid (database w)))
                                    (spec_edition_articles e))
                      = map score (spec_edition_articles e)
                  \<and> (\<forall>a \<in> set (spec_edition_articles e).
                         0 \<le> score a \<and> score a \<le> 100 \<and> score a \<in> \<int>)"
  proof
    assume "http_status (fst (GET e w)) \<noteq> 500"
    then have "\<not> ?bad" using iff by simp
    from ok[OF this] scores whole show "(\<exists>s. fst (GET e w) = Collected s
                       \<and> sum_editionId s = next_uuid (database w)
                       \<and> articlesCollected s = length (spec_edition_articles e)
                       \<and> take 9 (sum_sources s) = ?nine
                       \<and> (\<forall>(name, result) \<in> set (articleSources e).
                              (\<forall>v. result = Fulfilled v \<longrightarrow> v = [])
                              \<longrightarrow> (\<exists>msg. \<lparr>sr_source = source_name name, sr_status = failure,
                                           sr_count = 0, sr_error = Some msg\<rparr>
                                         \<in> set (sum_sources s)))
                       \<and> (\<forall>(name, result) \<in> set (articleSources e).
                              \<forall>v. result = Fulfilled v \<and> v \<noteq> []
                              \<longrightarrow> \<lparr>sr_source = source_name name, sr_status = success,
                                   sr_count = min (TOP_N_PER_SOURCE name) (length v),
                                   sr_error = None\<rparr> \<in> set (sum_sources s)))
                  \<and> response_status (fst (GET e w)) = ''success''
                  \<and> http_status (fst (GET e w)) = 200
                  \<and> editions (database (snd (GET e w))) = editions (database w) @ [?published]
                  \<and> articles (database (snd (GET e w)))
                      = articles (database w) @
                        map (article_values (next_uuid (database w))) (spec_edition_articles e)
                  \<and> map score (map (article_values (next_uuid (database w)))
                                    (spec_edition_articles e))
                      = map score (spec_edition_articles e)
                  \<and> (\<forall>a \<in> set (spec_edition_articles e).
                         0 \<le> score a \<and> score a \<le> 100 \<and> score a \<in> \<int>)"
      by (intro conjI) blast+
  qed
  have c6: "(\<forall>(name, result) \<in> set (articleSources e). \<forall>v. result = Fulfilled v \<longrightarrow> v = [])
              \<longrightarrow> spec_edition_articles e = []
                  \<and> response_status (fst (GET e w)) = ''success''
                  \<and> articles (database (snd (GET e w))) = articles (database w)
                  \<and> editions (database (snd (GET e w))) = editions (database w) @ [?published]"
  proof
    assume "\<forall>(name, result) \<in> set (articleSources e). \<forall>v. result = Fulfilled v \<longrightarrow> v = []"
    then have n: "spec_edition_articles e = []"
      unfolding sc by (rule all_failed_nothing_collected)
    then have "\<not> ?bad" by simp
    from ok[OF this] n
    show "spec_edition_articles e = []
          \<and> response_status (fst (GET e w)) = ''success''
          \<and> articles (database (snd (GET e w))) = articles (database w)
          \<and> editions (database (snd (GET e w))) = editions (database w) @ [?published]"
      by simp
  qed
  from len iff prs c4 c5 c6 show ?thesis by (intro conjI)
qed

theorem collection_partial_failure_witness:
  "http_status (fst (GET prs_env sample_world)) = 500
   \<and> response_status (fst (GET prs_env sample_world)) = ''error''
   \<and> map edition_status (editions (database (snd (GET prs_env sample_world))))
       = [Published, Draft]
   \<and> articles (database (snd (GET prs_env sample_world))) = []
   \<and> http_status (fst (GET partial_env sample_world)) = 200
   \<and> response_status (fst (GET partial_env sample_world)) = ''success''
   \<and> map title (articles (database (snd (GET partial_env sample_world))))
       = [''b2'', ''b4'', ''b1'']
   \<and> map score (articles (database (snd (GET partial_env sample_world)))) = [100, 100, 0]
   \<and> map edition_status (editions (database (snd (GET partial_env sample_world))))
       = [Published, Published]
   \<and> response_status (fst (GET all_failing_env sample_world)) = ''success''
   \<and> articles (database (snd (GET all_failing_env sample_world))) = []
   \<and> map edition_status (editions (database (snd (GET all_failing_env sample_world))))
       = [Published, Published]"
proof -
  have w: "editions (database sample_world)
           = [\<lparr>edition_id = 0, edition_type = Evening, edition_date = ''2026-02-06'',
               publishedAt = Some 10, edition_status = Published\<rparr>]"
    "articles (database sample_world) = []"
    by (simp_all add: sample_world_def)
  \<comment> \<open>the pull-request source succeeds\<close>
  have pc: "\<not> (\<exists>s. CRON_SECRET prs_env = Some s \<and> s \<noteq> []
                 \<and> authorization prs_env \<noteq> Some (''Bearer '' @ s))"
    "select_fails (faults prs_env) = None"
    "insert_edition_fails (faults prs_env) = None"
    "insert_articles_fails (faults prs_env) = None"
    "update_fails (faults prs_env) = None"
    "filter (same_slot (determineEditionType (tokyoHour prs_env)) (today prs_env))
       (editions (database sample_world)) = []"
    "ids_fresh (database sample_world)"
    by (simp_all add: prs_env_def sample_env_def sample_world_def same_slot_def
          determineEditionType_def ids_fresh_def)
  have pv: "\<exists>v. ghPrsResult prs_env = Fulfilled v \<and> v \<noteq> []
              \<and> (\<forall>a \<in> set v. source a = Github_prs)"
    by (simp add: prs_env_def prToArticle_def)
  note p = collection_partial_failure[OF pc]
  from p pv have p1: "http_status (fst (GET prs_env sample_world)) = 500" by blast
  from p p1 have p2: "response_status (fst (GET prs_env sample_world)) = ''error''"
    by blast
  from p p1 have "editions (database (snd (GET prs_env sample_world)))
      = editions (database sample_world) @
        [\<lparr>edition_id = next_uuid (database sample_world),
          edition_type = determineEditionType (tokyoHour prs_env),
          edition_date = today prs_env,
          publishedAt = None,
          edition_status = Draft\<rparr>]"
    by blast
  then have p3: "map edition_status (editions (database (snd (GET prs_env sample_world))))
      = [Published, Draft]"
    by (simp add: w)
  from p p1 have "articles (database (snd (GET prs_env sample_world)))
      = articles (database sample_world)"
    by blast
  then have p4: "articles (database (snd (GET prs_env sample_world))) = []"
    by (simp add: w)
  \<comment> \<open>only Bluesky succeeds, with four posts\<close>
  have bc: "\<not> (\<exists>s. CRON_SECRET partial_env = Some s \<and> s \<noteq> []
                 \<and> authorization partial_env \<noteq> Some (''Bearer '' @ s))"
    "select_fails (faults partial_env) = None"
    "insert_edition_fails (faults partial_env) = None"
    "insert_articles_fails (faults partial_env) = None"
    "update_fails (faults partial_env) = None"
    "filter (same_slot (determineEditionType (tokyoHour partial_env)) (today partial_env))
       (editions (database sample_world)) = []"
    "ids_fresh (database sample_world)"
    by (simp_all add: partial_env_def all_failing_env_def sample_env_def sample_world_def
          same_slot_def determineEditionType_def ids_fresh_def)
  have ns: "normalized_score \<lparr>range_min = 0, range_max = 200\<rparr> 0 = 0"
    "normalized_score \<lparr>range_min = 0, range_max = 200\<rparr> 300 = 100"
    "normalized_score \<lparr>range_min = 0, range_max = 200\<rparr> 200 = 100"
    by (simp_all add: normalized_score_low normalized_score_high)
  have be: "spec_edition_articles partial_env
            = [bluesky_post ''b2'' 100, bluesky_post ''b4'' 100, bluesky_post ''b1'' 0]"
    by (simp add: spec_edition_articles_def articleSources_def partial_env_def
          all_failing_env_def sample_env_def spec_topK_def normalizeScores_def Let_def
          bluesky_post_def sample_article_def ns)
  have bok: "\<not> (\<exists>a \<in> set (spec_edition_articles partial_env). source a \<notin> set articleSourceEnum)"
    by (simp add: be bluesky_post_def sample_article_def articleSourceEnum_def)
  note b = collection_partial_failure[OF bc]
  from b bok have b0: "http_status (fst (GET partial_env sample_world)) \<noteq> 500" by blast
  from b b0 have b1: "http_status (fst (GET partial_env sample_world)) = 200"
    "response_status (fst (GET partial_env sample_world)) = ''success''"
    by blast+
  from b b0 have ba: "articles (database (snd (GET partial_env sample_world)))
      = articles (database sample_world) @
        map (article_values (next_uuid (database sample_world)))
            (spec_edition_articles partial_env)"
    by blast
  have b2: "map title (articles (database (snd (GET partial_env sample_world))))
              = [''b2'', ''b4'', ''b1'']"
    "map score (articles (database (snd (GET partial_env sample_world)))) = [100, 100, 0]"
    unfolding ba be
    by (simp_all add: w article_values_def bluesky_post_def sample_article_def Math_round_consts)
  from b b0 have "editions (database (snd (GET partial_env sample_world)))
      = editions (database sample_world) @
        [\<lparr>edition_id = next_uuid (database sample_world),
          edition_type = determineEditionType (tokyoHour partial_env),
          edition_date = today partial_env,
          publishedAt = Some (publish_time partial_env),
          edition_status = Published\<rparr>]"
    by blast
  then have b3: "map edition_status (editions (database (snd (GET partial_env sample_world))))
      = [Published, Published]"
    by (simp add: w)
  \<comment> \<open>all nine sources fail\<close>
  have fc: "\<not> (\<exists>s. CRON_SECRET all_failing_env = Some s \<and> s \<noteq> []
                 \<and> authorization all_failing_env \<noteq> Some (''Bearer '' @ s))"
    "select_fails (faults all_failing_env) = None"
    "insert_edition_fails (faults all_failing_env) = None"
    "insert_articles_fails (faults all_failing_env) = None"
    "update_fails (faults all_failing_env) = None"
    "filter (same_slot (determineEditionType (tokyoHour all_failing_env)) (today all_failing_env))
       (editions (database sample_world)) = []"
    "ids_fresh (database sample_world)"
    by (simp_all add: all_failing_env_def sample_env_def sample_world_def same_slot_def
          determineEditionType_def ids_fresh_def)
  have allf: "\<forall>(name, result) \<in> set (articleSources all_failing_env).
                \<forall>v. result = Fulfilled v \<longrightarrow> v = []"
    by (simp add: articleSources_def all_failing_env_def sample_env_def)
  note f = collection_partial_failure[OF fc]
  from f allf have f1: "response_status (fst (GET all_failing_env sample_world)) = ''success''"
    by blast
  from f allf
  have "articles (database (snd (GET all_failing_env sample_world)))
        = articles (database sample_world)"
    by blast
  then have f2: "articles (database (snd (GET all_failing_env sample_world))) = []"
    by (simp add: w)
  from f allf have "editions (database (snd (GET all_failing_env sample_world)))
      = editions (database sample_world) @
        [\<lparr>edition_id = next_uuid (database sample_world),
          edition_type = determineEditionType (tokyoHour all_failing_env),
          edition_date = today all_failing_env,
          publishedAt = Some (publish_time all_failing_env),
          edition_status = Published\<rparr>]"
    by blast
  then have f3: "map edition_status (editions (database (snd (GET all_failing_env sample_world))))
      = [Published, Published]"
    by (simp add: w)
  from p1 p2 p3 p4 b1 b2 b3 f1 f2 f3 show ?thesis by (intro conjI)
qed

end
